theory Spec2Isabelle
  imports Main "HOL-Library.Char_ord" "HOL-Library.List_Lexorder" "HOL-Library.AList"
    "HOL-Library.Multiset"
begin

text \<open>
  A model of \<open>src/libs/SearchQueryUtils.ts\<close>: the conversions between a search query string,
  the syntax tree of the grammar parser, the flattened filters and the values of the
  advanced-filters form, and the hash of a query. Every function of the module that the
  properties below are about is a definition here, named as in the source; what the module
  takes from elsewhere (the grammar parser, the hash of a text, the lookup of personal
  details, the sort of the JavaScript engine) is a parameter, and the constants of
  \<open>CONST\<close> are written out.
\<close>

section \<open>JavaScript strings and arrays\<close>

text \<open>
  A JavaScript string is a sequence of code units and is modelled as a \<^typ>\<open>string\<close>; the
  order on strings (the one of \<open>a > b\<close> and of the default \<open>Array.prototype.sort\<close>) is the
  lexicographic order on code units, here the order of \<open>List_Lexorder\<close> over \<open>Char_ord\<close>.
\<close>

definition dquote :: char where
  "dquote = CHR 0x22"

definition backslash :: char where
  "backslash = CHR 0x5C"

definition squote :: char where
  "squote = CHR 0x27"

text \<open>\<open>Array.prototype.join\<close>: the elements with the separator between neighbours.\<close>

fun join :: "string \<Rightarrow> string list \<Rightarrow> string" where
  "join sep [] = []"
| "join sep [x] = x"
| "join sep (x # y # ys) = x @ sep @ join sep (y # ys)"

text \<open>\<open>String.prototype.split\<close> with a one-character separator: always at least one piece.\<close>

fun split :: "char \<Rightarrow> string \<Rightarrow> string list" where
  "split sep [] = [[]]"
| "split sep (c # cs) =
     (if c = sep then [] # split sep cs
      else (case split sep cs of [] \<Rightarrow> [[c]] | p # ps \<Rightarrow> (c # p) # ps))"

text \<open>
  \<open>String.prototype.trim\<close> strips white space and line terminators from both ends; among
  the code units below 256 these are tab, LF, VT, FF, CR, space and the no-break space.
\<close>

definition isWhiteSpace :: "char \<Rightarrow> bool" where
  "isWhiteSpace c \<longleftrightarrow> c \<in> set [CHR 0x09, CHR 0x0A, CHR 0x0B, CHR 0x0C, CHR 0x0D, CHR 0x20, CHR 0xA0]"

definition trim :: "string \<Rightarrow> string" where
  "trim s = rev (dropWhile isWhiteSpace (rev (dropWhile isWhiteSpace s)))"

section \<open>The value sanitizer\<close>

text \<open>
  The character class of the regular expression \<^verbatim>\<open>/[^A-Za-z0-9_@./#&+\-\\';,"]/g\<close>, before
  negation: the three ranges and the thirteen single characters.
\<close>

definition inClass :: "char \<Rightarrow> bool" where
  "inClass c \<longleftrightarrow>
     (CHR ''A'' \<le> c \<and> c \<le> CHR ''Z'') \<or> (CHR ''a'' \<le> c \<and> c \<le> CHR ''z'') \<or>
     (CHR ''0'' \<le> c \<and> c \<le> CHR ''9'') \<or>
     c = CHR ''_'' \<or> c = CHR ''@'' \<or> c = CHR ''.'' \<or> c = CHR ''/'' \<or> c = CHR ''#'' \<or>
     c = CHR ''&'' \<or> c = CHR ''+'' \<or> c = CHR ''-'' \<or> c = backslash \<or> c = squote \<or>
     c = CHR '';'' \<or> c = CHR '','' \<or> c = dquote"

text \<open>
  \<open>regexp.test(str)\<close> on a fresh regular expression: some code unit of \<open>str\<close> matches the
  negated class.
\<close>

definition regexpTest :: "string \<Rightarrow> bool" where
  "regexpTest str = list_ex (\<lambda>c. \<not> inClass c) str"

definition sanitizeSearchValue :: "string \<Rightarrow> string" where
  "sanitizeSearchValue str = (if regexpTest str then [dquote] @ str @ [dquote] else str)"

text \<open>
  The safe set as the specification lists it: ASCII letters, digits, and the characters
  \<^verbatim>\<open>_ @ . / # & + - \ ' ; , "\<close>.
\<close>

definition safeSet :: "char set" where
  "safeSet =
     set ''ABCDEFGHIJKLMNOPQRSTUVWXYZ'' \<union> set ''abcdefghijklmnopqrstuvwxyz'' \<union>
     set ''0123456789'' \<union> set ''_@./#&+-;,'' \<union> {backslash, squote, dquote}"

section \<open>Constants of the module\<close>

text \<open>
  Modelled from the spec: \<open>CONST.SEARCH.SYNTAX_OPERATORS\<close> is not under src/. The source
  names six of the eight operators in \<open>operatorToCharMap\<close> together with \<open>AND\<close> and \<open>OR\<close>,
  and writes the literals \<open>'eq'\<close>, \<open>'neq'\<close>, \<open>'lt'\<close>, \<open>'gt'\<close> for the operators named here
  \<open>EQUAL_TO\<close>, \<open>NOT_EQUAL_TO\<close>, \<open>LOWER_THAN\<close>, \<open>GREATER_THAN\<close>.
\<close>

datatype Operator =
  EQUAL_TO | LOWER_THAN | LOWER_THAN_OR_EQUAL_TO | GREATER_THAN | GREATER_THAN_OR_EQUAL_TO
| NOT_EQUAL_TO | AND | OR

fun operatorToCharMap :: "Operator \<Rightarrow> string" where
  "operatorToCharMap EQUAL_TO = '':''"
| "operatorToCharMap LOWER_THAN = ''<''"
| "operatorToCharMap LOWER_THAN_OR_EQUAL_TO = ''<=''"
| "operatorToCharMap GREATER_THAN = ''>''"
| "operatorToCharMap GREATER_THAN_OR_EQUAL_TO = ''>=''"
| "operatorToCharMap NOT_EQUAL_TO = ''!=''"
| "operatorToCharMap AND = '',''"
| "operatorToCharMap OR = '' ''"

text \<open>
  Modelled from the spec: \<open>CONST.SEARCH.SYNTAX_ROOT_KEYS\<close> is not under src/. Its values are
  the root field names; the enumeration order is the one the specification gives
  (policyID, type, status, sortBy, sortOrder).
\<close>

definition ROOT_POLICY_ID :: string where
  "ROOT_POLICY_ID = ''policyID''"

definition ROOT_TYPE :: string where
  "ROOT_TYPE = ''type''"

definition ROOT_STATUS :: string where
  "ROOT_STATUS = ''status''"

definition ROOT_SORT_BY :: string where
  "ROOT_SORT_BY = ''sortBy''"

definition ROOT_SORT_ORDER :: string where
  "ROOT_SORT_ORDER = ''sortOrder''"

definition SYNTAX_ROOT_KEYS :: "string list" where
  "SYNTAX_ROOT_KEYS = [ROOT_POLICY_ID, ROOT_TYPE, ROOT_STATUS, ROOT_SORT_BY, ROOT_SORT_ORDER]"

text \<open>
  Modelled from the spec: \<open>CONST.SEARCH.SYNTAX_FILTER_KEYS\<close> is not under src/. Its values
  are the filter keys of the query grammar, enumerated in the order of the specification's
  data model (date, amount, merchant, category, tag, currency, card, tax rate, from, to,
  in, description, report id, keyword, expense type).
\<close>

definition DATE :: string where
  "DATE = ''date''"

definition AMOUNT :: string where
  "AMOUNT = ''amount''"

definition MERCHANT :: string where
  "MERCHANT = ''merchant''"

definition CATEGORY :: string where
  "CATEGORY = ''category''"

definition TAG :: string where
  "TAG = ''tag''"

definition CURRENCY :: string where
  "CURRENCY = ''currency''"

definition CARD_ID :: string where
  "CARD_ID = ''cardID''"

definition TAX_RATE :: string where
  "TAX_RATE = ''taxRate''"

definition FROM :: string where
  "FROM = ''from''"

definition TO :: string where
  "TO = ''to''"

definition IN :: string where
  "IN = ''in''"

definition DESCRIPTION :: string where
  "DESCRIPTION = ''description''"

definition REPORT_ID :: string where
  "REPORT_ID = ''reportID''"

definition KEYWORD :: string where
  "KEYWORD = ''keyword''"

definition EXPENSE_TYPE :: string where
  "EXPENSE_TYPE = ''expenseType''"

definition SYNTAX_FILTER_KEYS :: "string list" where
  "SYNTAX_FILTER_KEYS =
     [DATE, AMOUNT, MERCHANT, CATEGORY, TAG, CURRENCY, CARD_ID, TAX_RATE, FROM, TO, IN,
      DESCRIPTION, REPORT_ID, KEYWORD, EXPENSE_TYPE]"

section \<open>The data model\<close>

text \<open>
  An \<open>ASTNode\<close> has an operator (absent on a pure value leaf), a left side that is a string
  or a node, and a right side that is a string, a list of strings or a node.
\<close>

datatype 'n Left = LKey string | LNode 'n

datatype 'n Right = RValue string | RList "string list" | RNode 'n

datatype ASTNode = ASTNode "Operator option" "ASTNode Left" "ASTNode Right"

text \<open>
  The value of a \<open>QueryFilter\<close> is what the flattener copies from the right side of a node:
  a string, or the node itself where the right side of a key node is a node (the cast
  \<open>node.right as string | number\<close> does not check). \<open>value.toString()\<close> of a node is the
  text \<open>[object Object]\<close>, and \<open>a > b\<close> compares two such values by their texts. The type
  \<open>QueryFilter\<close> admits a number as well; the right side of a node holds none, and numbers
  are left out of the model.
\<close>

datatype QValue = QStr string | QNode ASTNode

fun toString :: "QValue \<Rightarrow> string" where
  "toString (QStr s) = s"
| "toString (QNode n) = ''[object Object]''"

record QueryFilter =
  operator :: Operator
  "value" :: QValue

text \<open>
  \<open>QueryFilters\<close> is a JavaScript object from filter key to array; its keys are enumerated
  in insertion order, so it is an association list (with distinct keys).
\<close>

type_synonym QueryFilters = "(string \<times> QueryFilter list) list"

record SearchQueryJSON =
  type :: string
  status :: string
  sortBy :: string
  sortOrder :: string
  policyID :: "string option"
  filters :: "ASTNode option"
  flatFilters :: QueryFilters
  inputQuery :: string
  hash :: nat

section \<open>Range fragments of the filter form\<close>

text \<open>
  A form value is a string or an array of strings. A value is truthy unless it is the empty
  string; inside a template literal an array is rendered by \<open>join(',')\<close>.
\<close>

datatype FormValue = FString string | FArray "string list"

fun truthy :: "FormValue option \<Rightarrow> bool" where
  "truthy None = False"
| "truthy (Some (FString s)) = (s \<noteq> [])"
| "truthy (Some (FArray xs)) = True"

fun render :: "FormValue \<Rightarrow> string" where
  "render (FString s) = s"
| "render (FArray xs) = join '','' xs"

fun renderOpt :: "FormValue option \<Rightarrow> string" where
  "renderOpt None = ''undefined''"
| "renderOpt (Some v) = render v"

type_synonym SearchAdvancedFiltersForm = "(string \<times> FormValue) list"

text \<open>
  Modelled from the spec: the form's field names (\<open>FILTER_KEYS\<close> of
  \<open>SearchAdvancedFiltersForm\<close>) are not under src/. The form has one field per filter key,
  named as the filter key, the split range fields, and type, status and policyID.
\<close>

definition FORM_DATE_BEFORE :: string where
  "FORM_DATE_BEFORE = ''dateBefore''"

definition FORM_DATE_AFTER :: string where
  "FORM_DATE_AFTER = ''dateAfter''"

definition FORM_LESS_THAN :: string where
  "FORM_LESS_THAN = ''lessThan''"

definition FORM_GREATER_THAN :: string where
  "FORM_GREATER_THAN = ''greaterThan''"

definition buildDateFilterQuery :: "SearchAdvancedFiltersForm \<Rightarrow> string" where
  "buildDateFilterQuery filterValues =
     (let dateBefore = map_of filterValues FORM_DATE_BEFORE;
          dateAfter = map_of filterValues FORM_DATE_AFTER;
          dateFilter = [];
          dateFilter = (if truthy dateBefore then dateFilter @ DATE @ ''<'' @ renderOpt dateBefore
                        else dateFilter);
          dateFilter = (if truthy dateBefore \<and> truthy dateAfter then dateFilter @ '' ''
                        else dateFilter);
          dateFilter = (if truthy dateAfter then dateFilter @ DATE @ ''>'' @ renderOpt dateAfter
                        else dateFilter)
      in dateFilter)"

definition buildAmountFilterQuery :: "SearchAdvancedFiltersForm \<Rightarrow> string" where
  "buildAmountFilterQuery filterValues =
     (let lessThan = map_of filterValues FORM_LESS_THAN;
          greaterThan = map_of filterValues FORM_GREATER_THAN;
          amountFilter = [];
          amountFilter = (if truthy greaterThan
                          then amountFilter @ AMOUNT @ ''>'' @ renderOpt greaterThan
                          else amountFilter);
          amountFilter = (if truthy lessThan \<and> truthy greaterThan then amountFilter @ '' ''
                          else amountFilter);
          amountFilter = (if truthy lessThan
                          then amountFilter @ AMOUNT @ ''<'' @ renderOpt lessThan
                          else amountFilter)
      in amountFilter)"

section \<open>Serialising the filters of one key\<close>

text \<open>
  One round of the \<open>forEach\<close> of \<open>buildFilterValuesString\<close>: what the entry at \<open>index\<close> appends
  to \<open>filterValueString\<close>. The index is below the length, and \<open>index - 1\<close> is read only when
  \<open>index\<close> is not zero.
\<close>

definition appended :: "string \<Rightarrow> QueryFilter list \<Rightarrow> nat \<Rightarrow> string" where
  "appended filterName queryFilters index =
     (let delimiter = (if filterName = KEYWORD then '' '' else '','');
          queryFilter = queryFilters ! index
      in if index \<noteq> 0 \<and>
            ((operator queryFilter = EQUAL_TO \<and> operator (queryFilters ! (index - 1)) = EQUAL_TO) \<or>
             (operator queryFilter = NOT_EQUAL_TO \<and>
              operator (queryFilters ! (index - 1)) = NOT_EQUAL_TO))
         then delimiter @ sanitizeSearchValue (toString (value queryFilter))
         else if filterName = KEYWORD
         then delimiter @ sanitizeSearchValue (toString (value queryFilter))
         else '' '' @ filterName @ operatorToCharMap (operator queryFilter) @
              sanitizeSearchValue (toString (value queryFilter)))"

definition buildFilterValuesString :: "string \<Rightarrow> QueryFilter list \<Rightarrow> string" where
  "buildFilterValuesString filterName queryFilters =
     foldl (\<lambda>filterValueString index. filterValueString @ appended filterName queryFilters index)
       [] [0..<length queryFilters]"

section \<open>Flattening the syntax tree\<close>

text \<open>
  \<open>traverse\<close> of \<open>getFilters\<close>, with the object \<open>filters\<close> it writes passed through. A new key is
  added at the end of the object; \<open>push\<close> extends the array of a key where it stands.
\<close>

definition ownEntries :: "Operator \<Rightarrow> ASTNode Right \<Rightarrow> QueryFilter list" where
  "ownEntries op right =
     (case right of
        RValue s \<Rightarrow> [\<lparr>operator = op, value = QStr s\<rparr>]
      | RList elements \<Rightarrow> map (\<lambda>element. \<lparr>operator = op, value = QStr element\<rparr>) elements
      | RNode n \<Rightarrow> [\<lparr>operator = op, value = QNode n\<rparr>])"

definition pushAll :: "string \<Rightarrow> QueryFilter list \<Rightarrow> QueryFilters \<Rightarrow> QueryFilters" where
  "pushAll nodeKey entries filtersObj =
     (let created = (if map_of filtersObj nodeKey = None then filtersObj @ [(nodeKey, [])]
                     else filtersObj);
          filterArray = (case map_of created nodeKey of None \<Rightarrow> [] | Some a \<Rightarrow> a)
      in AList.update nodeKey (filterArray @ entries) created)"

fun traverse :: "ASTNode \<Rightarrow> QueryFilters \<Rightarrow> QueryFilters" where
  "traverse (ASTNode nodeOperator left right) filtersObj =
     (case nodeOperator of
        None \<Rightarrow> filtersObj
      | Some op \<Rightarrow>
          (let afterLeft = (case left of LNode l \<Rightarrow> traverse l filtersObj | LKey _ \<Rightarrow> filtersObj);
               afterRight = (case right of RNode r \<Rightarrow> traverse r afterLeft | _ \<Rightarrow> afterLeft)
           in case left of
                LNode _ \<Rightarrow> afterRight
              | LKey nodeKey \<Rightarrow>
                  if nodeKey \<notin> set SYNTAX_FILTER_KEYS then afterRight
                  else pushAll nodeKey (ownEntries op right) afterRight))"

definition getFilters :: "SearchQueryJSON \<Rightarrow> QueryFilters" where
  "getFilters queryJSON =
     (case filters queryJSON of None \<Rightarrow> [] | Some node \<Rightarrow> traverse node [])"

section \<open>Hashing a query\<close>

text \<open>The comparator of \<open>getQueryHash\<close>: 1 when the first value is greater, -1 otherwise.\<close>

definition compareValues :: "QueryFilter \<Rightarrow> QueryFilter \<Rightarrow> int" where
  "compareValues queryFilter1 queryFilter2 =
     (if toString (value queryFilter1) > toString (value queryFilter2) then 1 else - 1)"

text \<open>
  \<open>Array.prototype.sort\<close> belongs to the JavaScript engine and is a parameter \<open>sortImpl\<close>,
  called with the comparator and the array. The comparator above never answers 0, so
  ECMAScript leaves open where entries with equal values end up, and engines differ; the
  model does not fix it. What is assumed of an engine is \<open>engineSort\<close>: the result is a
  rearrangement of the array; the engine reaches the entries through the comparator only,
  so that putting other entries in their places, on which the comparator answers the same,
  puts them in the same places of the result; and with the comparator above, when no two
  values of the array are equal, the values of the result ascend.
\<close>

type_synonym SortImpl = "(QueryFilter \<Rightarrow> QueryFilter \<Rightarrow> int) \<Rightarrow> QueryFilter list \<Rightarrow> QueryFilter list"

definition engineSort :: "SortImpl \<Rightarrow> bool" where
  "engineSort sortImpl \<longleftrightarrow>
     (\<forall>compareFn xs. mset (sortImpl compareFn xs) = mset xs) \<and>
     (\<forall>compareFn compareFn' f xs.
        (\<forall>a\<in>set xs. \<forall>b\<in>set xs. compareFn' (f a) (f b) = compareFn a b) \<longrightarrow>
        sortImpl compareFn' (map f xs) = map f (sortImpl compareFn xs)) \<and>
     (\<forall>xs. distinct (map (\<lambda>queryFilter. toString (value queryFilter)) xs) \<longrightarrow>
        sorted (map (\<lambda>queryFilter. toString (value queryFilter)) (sortImpl compareValues xs)))"

text \<open>
  Two sorts that meet these assumptions, by insertion in front of the first entry that the
  comparator does not put the new one after: taking the entries from the right keeps
  entries with equal values in their order, taking them from the left reverses them. They
  show that the assumptions can be met either way, and evaluate the examples.
\<close>

fun insertSorted :: "('a \<Rightarrow> 'a \<Rightarrow> int) \<Rightarrow> 'a \<Rightarrow> 'a list \<Rightarrow> 'a list" where
  "insertSorted compareFn x [] = [x]"
| "insertSorted compareFn x (y # ys) =
     (if compareFn x y > 0 then y # insertSorted compareFn x ys else x # y # ys)"

definition stableInsertionSort :: "('a \<Rightarrow> 'a \<Rightarrow> int) \<Rightarrow> 'a list \<Rightarrow> 'a list" where
  "stableInsertionSort compareFn xs = foldr (insertSorted compareFn) xs []"

definition tieReversingSort :: "('a \<Rightarrow> 'a \<Rightarrow> int) \<Rightarrow> 'a list \<Rightarrow> 'a list" where
  "tieReversingSort compareFn xs = foldl (\<lambda>acc x. insertSorted compareFn x acc) [] xs"

text \<open>
  One round of the \<open>forEach\<close> over the sorted keys. \<open>sort\<close> works in place, so the array
  stored under the key in \<open>query.flatFilters\<close> is the sorted one afterwards; the state is the
  text built so far and the \<open>flatFilters\<close> object.
\<close>

definition hashRound :: "SortImpl \<Rightarrow> string \<Rightarrow> string \<times> QueryFilters \<Rightarrow> string \<times> QueryFilters" where
  "hashRound sortImpl key st =
     (let orderedQuery = fst st;
          flat = snd st;
          filterValues = map_of flat key;
          sortedFilterValues = map_option (sortImpl compareValues) filterValues;
          flat = (case sortedFilterValues of None \<Rightarrow> flat | Some sortedArray \<Rightarrow> AList.update key sortedArray flat)
      in (orderedQuery @ '' '' @
            buildFilterValuesString key (case sortedFilterValues of None \<Rightarrow> [] | Some sortedArray \<Rightarrow> sortedArray),
          flat))"

text \<open>The root part of the text that is hashed.\<close>

definition rootText :: "SearchQueryJSON \<Rightarrow> string" where
  "rootText query =
     (let orderedQuery = [];
          orderedQuery = (case policyID query of
                            None \<Rightarrow> orderedQuery
                          | Some p \<Rightarrow> if p = [] then orderedQuery
                                      else orderedQuery @ ROOT_POLICY_ID @ '':'' @ p @ '' '');
          orderedQuery = orderedQuery @ ROOT_TYPE @ '':'' @ type query;
          orderedQuery = orderedQuery @ '' '' @ ROOT_STATUS @ '':'' @ status query;
          orderedQuery = orderedQuery @ '' '' @ ROOT_SORT_BY @ '':'' @ sortBy query;
          orderedQuery = orderedQuery @ '' '' @ ROOT_SORT_ORDER @ '':'' @ sortOrder query
      in orderedQuery)"

text \<open>
  \<open>getQueryHash\<close>: the rounds over \<open>Object.keys(query.flatFilters).sort()\<close>, then the hash
  of the text. \<open>UserUtils.hashText\<close> is not under src/ and is a parameter, called with the
  text and the range, as the engine's sort is. The result is the hash and the argument
  object after the call.
\<close>

definition hashRounds :: "SortImpl \<Rightarrow> SearchQueryJSON \<Rightarrow> string \<times> QueryFilters" where
  "hashRounds sortImpl query =
     fold (hashRound sortImpl) (sort (map fst (flatFilters query)))
       (rootText query, flatFilters query)"

definition getQueryHash ::
  "SortImpl \<Rightarrow> (string \<Rightarrow> nat \<Rightarrow> nat) \<Rightarrow> SearchQueryJSON \<Rightarrow> nat \<times> SearchQueryJSON" where
  "getQueryHash sortImpl hashText query =
     (let st = hashRounds sortImpl query
      in (hashText (fst st) (2 ^ 32), query\<lparr>flatFilters := snd st\<rparr>))"

text \<open>
  Modelled from the spec: \<open>UserUtils.hashText\<close> is not under src/. The specification
  describes a polynomial rolling hash over the code points, reduced modulo the range, and
  leaves the multiplier open; 31 is taken here. It serves only to evaluate examples.
\<close>

definition polynomialHashText :: "string \<Rightarrow> nat \<Rightarrow> nat" where
  "polynomialHashText text hashRange = foldl (\<lambda>h c. (h * 31 + of_char c) mod hashRange) 0 text"

section \<open>Parsing a query\<close>

text \<open>
  The grammar parser \<open>searchParser.parse\<close> is not under src/ and is a parameter; \<open>None\<close> is a
  parse that throws. \<open>buildSearchQueryJSON\<close> catches every exception of its body, logs it
  with \<open>console.error\<close> (not modelled) and then returns \<open>undefined\<close>, here \<open>None\<close>.
\<close>

type_synonym Parser = "string \<Rightarrow> SearchQueryJSON option"

definition buildSearchQueryJSON ::
  "Parser \<Rightarrow> SortImpl \<Rightarrow> (string \<Rightarrow> nat \<Rightarrow> nat) \<Rightarrow> string \<Rightarrow> SearchQueryJSON option" where
  "buildSearchQueryJSON parse sortImpl hashText query =
     (case parse query of
        None \<Rightarrow> None
      | Some parsed \<Rightarrow>
          (let flat = getFilters parsed;
               result = parsed\<lparr>inputQuery := query\<rparr>;
               result = result\<lparr>flatFilters := flat\<rparr>;
               hashed = getQueryHash sortImpl hashText result;
               result = (snd hashed)\<lparr>hash := fst hashed\<rparr>
           in Some result))"

section \<open>Serialising a query\<close>

text \<open>\<open>queryJSON?.[key]\<close> for a root key: the field of that name, when it is defined.\<close>

definition rootField :: "string \<Rightarrow> SearchQueryJSON \<Rightarrow> string option" where
  "rootField key queryJSON =
     (if key = ROOT_TYPE then Some (type queryJSON)
      else if key = ROOT_STATUS then Some (status queryJSON)
      else if key = ROOT_SORT_BY then Some (sortBy queryJSON)
      else if key = ROOT_SORT_ORDER then Some (sortOrder queryJSON)
      else if key = ROOT_POLICY_ID then policyID queryJSON
      else None)"

definition pushRoot ::
  "SearchQueryJSON option \<Rightarrow> SearchQueryJSON option \<Rightarrow> string \<Rightarrow> string list \<Rightarrow> string list" where
  "pushRoot queryJSON defaultQueryJSON key queryParts =
     (let existingFieldValue = Option.bind queryJSON (rootField key);
          queryFieldValue = (case existingFieldValue of
                               Some v \<Rightarrow> Some v
                             | None \<Rightarrow> Option.bind defaultQueryJSON (rootField key))
      in case queryFieldValue of
           None \<Rightarrow> queryParts
         | Some v \<Rightarrow> if v = [] then queryParts else queryParts @ [key @ '':'' @ v])"

definition pushFilter :: "QueryFilters \<Rightarrow> string \<Rightarrow> string list \<Rightarrow> string list" where
  "pushFilter flat filterKey queryParts =
     (case map_of flat filterKey of
        None \<Rightarrow> queryParts
      | Some queryFilter \<Rightarrow> queryParts @ [buildFilterValuesString filterKey queryFilter])"

definition buildSearchQueryString ::
  "Parser \<Rightarrow> SortImpl \<Rightarrow> (string \<Rightarrow> nat \<Rightarrow> nat) \<Rightarrow> SearchQueryJSON option \<Rightarrow> string" where
  "buildSearchQueryString parse sortImpl hashText queryJSON =
     (let defaultQueryJSON = buildSearchQueryJSON parse sortImpl hashText [];
          queryParts = fold (pushRoot queryJSON defaultQueryJSON) SYNTAX_ROOT_KEYS []
      in case queryJSON of
           None \<Rightarrow> join '' '' queryParts
         | Some q \<Rightarrow>
             join '' '' (fold (pushFilter (flatFilters q)) SYNTAX_FILTER_KEYS queryParts))"

text \<open>
  Modelled from the spec: the parser is not under src/; on the empty string it produces the
  default root fields with no filters (section 6). This stand-in knows the empty query only
  and is used to evaluate examples.
\<close>

definition defaultQuery :: SearchQueryJSON where
  "defaultQuery =
     \<lparr>type = ''expense'', status = ''all'', sortBy = ''date'', sortOrder = ''desc'',
      policyID = None, filters = None, flatFilters = [], inputQuery = [], hash = 0\<rparr>"

definition emptyQueryParser :: Parser where
  "emptyQueryParser query = (if query = [] then Some defaultQuery else None)"

text \<open>The two lists the serialiser joins, written with \<open>map\<close> and \<open>filter\<close>.\<close>

definition rootClauses :: "SearchQueryJSON option \<Rightarrow> SearchQueryJSON \<Rightarrow> string list" where
  "rootClauses defaultQueryJSON q =
     List.map_filter
       (\<lambda>key. case (case rootField key q of
                       Some v \<Rightarrow> Some v
                     | None \<Rightarrow> Option.bind defaultQueryJSON (rootField key)) of
                 None \<Rightarrow> None
               | Some v \<Rightarrow> if v = [] then None else Some (key @ '':'' @ v))
       SYNTAX_ROOT_KEYS"

definition filterFragments :: "SearchQueryJSON \<Rightarrow> string list" where
  "filterFragments q =
     List.map_filter
       (\<lambda>filterKey. map_option (buildFilterValuesString filterKey) (map_of (flatFilters q) filterKey))
       SYNTAX_FILTER_KEYS"

fun hasSpaceRun :: "string \<Rightarrow> bool" where
  "hasSpaceRun (a # b # cs) = ((a = CHR '' '' \<and> b = CHR '' '') \<or> hasSpaceRun (b # cs))"
| "hasSpaceRun _ = False"

section \<open>From form values to a query string\<close>

text \<open>
  Modelled from the spec: the form's field names and the default sort column and order
  (\<open>CONST.SEARCH.TABLE_COLUMNS.DATE\<close>, \<open>CONST.SEARCH.SORT_ORDER.DESC\<close>) are not under src/.
\<close>

definition FORM_TYPE :: string where
  "FORM_TYPE = ''type''"

definition FORM_STATUS :: string where
  "FORM_STATUS = ''status''"

definition FORM_POLICY_ID :: string where
  "FORM_POLICY_ID = ''policyID''"

definition FORM_MERCHANT :: string where
  "FORM_MERCHANT = ''merchant''"

definition FORM_DESCRIPTION :: string where
  "FORM_DESCRIPTION = ''description''"

definition FORM_REPORT_ID :: string where
  "FORM_REPORT_ID = ''reportID''"

definition FORM_KEYWORD :: string where
  "FORM_KEYWORD = ''keyword''"

definition FORM_LIST_KEYS :: "string list" where
  "FORM_LIST_KEYS =
     [''category'', ''cardID'', ''taxRate'', ''expenseType'', ''tag'', ''currency'', ''from'',
      ''to'', ''in'']"

definition TABLE_COLUMNS_DATE :: string where
  "TABLE_COLUMNS_DATE = ''date''"

definition SORT_ORDER_DESC :: string where
  "SORT_ORDER_DESC = ''desc''"

datatype error = TypeError | IllTyped

text \<open>
  The callback of \<open>Object.entries(otherFilters).map\<close>: a clause, \<open>undefined\<close> (\<open>None\<close>), or the
  TypeError of \<open>split\<close> called on an array. \<open>Object.keys(SYNTAX_FILTER_KEYS).find\<close> looks for
  the filter key whose value is the form key.
\<close>

definition mapEntry :: "string \<times> FormValue \<Rightarrow> error + string option" where
  "mapEntry entry =
     (let filterKey = fst entry;
          filterValue = snd entry;
          keyInCorrectForm = List.find (\<lambda>key. key = filterKey) SYNTAX_FILTER_KEYS
      in if (filterKey = FORM_MERCHANT \<or> filterKey = FORM_DESCRIPTION \<or> filterKey = FORM_REPORT_ID) \<and>
            truthy (Some filterValue) \<and> keyInCorrectForm \<noteq> None
         then Inr (Some (filterKey @ '':'' @ sanitizeSearchValue (render filterValue)))
         else if filterKey = FORM_KEYWORD \<and> truthy (Some filterValue)
         then (case filterValue of
                 FString s \<Rightarrow> Inr (Some (join '' '' (map sanitizeSearchValue (split (CHR '' '') s))))
               | FArray _ \<Rightarrow> Inl TypeError)
         else (case filterValue of
                 FArray xs \<Rightarrow>
                   if filterKey \<in> set FORM_LIST_KEYS \<and> length xs > 0 \<and> keyInCorrectForm \<noteq> None
                   then Inr (Some (filterKey @ '':'' @
                                   join '','' (map sanitizeSearchValue (rev (remdups (rev xs))))))
                   else Inr None
               | FString _ \<Rightarrow> Inr None))"

fun mapEntries :: "(string \<times> FormValue) list \<Rightarrow> error + string option list" where
  "mapEntries [] = Inr []"
| "mapEntries (e # es) =
     (case mapEntry e of
        Inl err \<Rightarrow> Inl err
      | Inr r \<Rightarrow> (case mapEntries es of Inl err \<Rightarrow> Inl err | Inr rs \<Rightarrow> Inr (r # rs)))"

definition rootFragment :: "string \<Rightarrow> FormValue option \<Rightarrow> string list" where
  "rootFragment key v = (if truthy v then [key @ '':'' @ sanitizeSearchValue (renderOpt v)] else [])"

definition buildQueryStringFromFilterFormValues :: "SearchAdvancedFiltersForm \<Rightarrow> error + string" where
  "buildQueryStringFromFilterFormValues filterValues =
     (let otherFilters =
            filter (\<lambda>e. fst e \<noteq> FORM_TYPE \<and> fst e \<noteq> FORM_STATUS \<and> fst e \<noteq> FORM_POLICY_ID) filterValues;
          filtersString =
            [ROOT_SORT_BY @ '':'' @ TABLE_COLUMNS_DATE, ROOT_SORT_ORDER @ '':'' @ SORT_ORDER_DESC] @
            rootFragment ROOT_TYPE (map_of filterValues FORM_TYPE) @
            rootFragment ROOT_STATUS (map_of filterValues FORM_STATUS) @
            rootFragment ROOT_POLICY_ID (map_of filterValues FORM_POLICY_ID)
      in case mapEntries otherFilters of
           Inl err \<Rightarrow> Inl err
         | Inr mapped \<Rightarrow>
             (let mappedFilters = filter (\<lambda>f. f \<noteq> []) (List.map_filter id mapped);
                  filtersString = filtersString @ mappedFilters;
                  dateFilter = buildDateFilterQuery filterValues;
                  filtersString = filtersString @ [dateFilter];
                  amountFilter = buildAmountFilterQuery filterValues;
                  filtersString = filtersString @ [amountFilter]
              in Inr (trim (join '' '' filtersString))))"

section \<open>Standardising a query\<close>

text \<open>
  The directories: \<open>PersonalDetailsUtils.getPersonalDetailByEmail\<close> is not under src/ and is a
  parameter, here already followed by \<open>?.accountID.toString()\<close>; \<open>cardList\<close> is the list of
  \<open>Object.values(cardList)\<close>, each card with its bank and the text of its \<open>cardID\<close>;
  \<open>taxRates\<close> is an object from tax-rate name to identifiers.
\<close>

record Card =
  bank :: string
  cardID :: string

type_synonym TaxRates = "(string \<times> string list) list"

definition cardIDsOfBank :: "Card list \<Rightarrow> string \<Rightarrow> string list" where
  "cardIDsOfBank cardList b = map cardID (filter (\<lambda>card. bank card = b) cardList)"

definition accountIDOr :: "(string \<Rightarrow> string option) \<Rightarrow> string \<Rightarrow> string" where
  "accountIDOr getAccountIDByEmail email =
     (case getAccountIDByEmail email of None \<Rightarrow> email | Some accountID \<Rightarrow> accountID)"

definition taxRateIDsOr :: "TaxRates \<Rightarrow> string \<Rightarrow> string list" where
  "taxRateIDsOr taxRates name = (case map_of taxRates name of None \<Rightarrow> [name] | Some ids \<Rightarrow> ids)"

text \<open>
  \<open>findIDFromDisplayValue\<close>; the argument is the right side of the node. On a right side that
  is a node, \<open>filter.map\<close> is not a function for from, to and card (a TypeError); for the
  tax rate the result would be an array holding a node, which no \<open>ASTNode\<close> has, and the
  model stops with \<open>IllTyped\<close>.
\<close>

definition findIDFromDisplayValue ::
  "(string \<Rightarrow> string option) \<Rightarrow> string \<Rightarrow> ASTNode Right \<Rightarrow> Card list \<Rightarrow> TaxRates \<Rightarrow>
   error + ASTNode Right" where
  "findIDFromDisplayValue getAccountIDByEmail filterName filterArg cardList taxRates =
     (if filterName = FROM \<or> filterName = TO then
        (case filterArg of
           RValue email \<Rightarrow> Inr (RValue (accountIDOr getAccountIDByEmail email))
         | RList emails \<Rightarrow> Inr (RList (map (accountIDOr getAccountIDByEmail) emails))
         | RNode _ \<Rightarrow> Inl TypeError)
      else if filterName = TAX_RATE then
        (case filterArg of
           RValue name \<Rightarrow> Inr (RList (concat (map (taxRateIDsOr taxRates) [name])))
         | RList names \<Rightarrow> Inr (RList (concat (map (taxRateIDsOr taxRates) names)))
         | RNode _ \<Rightarrow> Inl IllTyped)
      else if filterName = CARD_ID then
        (case filterArg of
           RValue b \<Rightarrow>
             (let ids = cardIDsOfBank cardList b in Inr (if length ids > 0 then RList ids else RValue b))
         | RList banks \<Rightarrow> Inr (RList (concat (map (cardIDsOfBank cardList) banks)))
         | RNode _ \<Rightarrow> Inl TypeError)
      else Inr filterArg)"

text \<open>
  \<open>traverse\<close> of \<open>standardizeQueryJSON\<close>, on the deep copy: the node comes back rewritten, or
  the exception leaves the function.
\<close>

fun standardizeNode ::
  "(string \<Rightarrow> string option) \<Rightarrow> Card list \<Rightarrow> TaxRates \<Rightarrow> ASTNode \<Rightarrow> error + ASTNode" where
  "standardizeNode getAccountIDByEmail cardList taxRates (ASTNode nodeOperator left right) =
     (case nodeOperator of
        None \<Rightarrow> Inr (ASTNode nodeOperator left right)
      | Some op \<Rightarrow>
          (case (case left of
                   LNode l \<Rightarrow> map_sum id LNode (standardizeNode getAccountIDByEmail cardList taxRates l)
                 | LKey k \<Rightarrow> Inr (LKey k)) of
             Inl err \<Rightarrow> Inl err
           | Inr newLeft \<Rightarrow>
               (case (case right of
                        RNode r \<Rightarrow> map_sum id RNode (standardizeNode getAccountIDByEmail cardList taxRates r)
                      | _ \<Rightarrow> Inr right) of
                  Inl err \<Rightarrow> Inl err
                | Inr newRight \<Rightarrow>
                    (case left of
                       LNode _ \<Rightarrow> Inr (ASTNode nodeOperator newLeft newRight)
                     | LKey k \<Rightarrow>
                         (case findIDFromDisplayValue getAccountIDByEmail k newRight cardList taxRates of
                            Inl err \<Rightarrow> Inl err
                          | Inr found \<Rightarrow> Inr (ASTNode nodeOperator newLeft found))))))"

definition standardizeQueryJSON ::
  "(string \<Rightarrow> string option) \<Rightarrow> SearchQueryJSON \<Rightarrow> Card list \<Rightarrow> TaxRates \<Rightarrow>
   error + SearchQueryJSON" where
  "standardizeQueryJSON getAccountIDByEmail queryJSON cardList taxRates =
     (case filters queryJSON of
        None \<Rightarrow> Inr (queryJSON\<lparr>flatFilters := getFilters queryJSON\<rparr>)
      | Some node \<Rightarrow>
          (case standardizeNode getAccountIDByEmail cardList taxRates node of
             Inl err \<Rightarrow> Inl err
           | Inr newNode \<Rightarrow>
               (let standardQuery = queryJSON\<lparr>filters := Some newNode\<rparr>
                in Inr (standardQuery\<lparr>flatFilters := getFilters standardQuery\<rparr>))))"

section \<open>The policy identifier of a query\<close>

text \<open>
  \<open>getPolicyIDFromSearchQuery\<close> returns \<open>undefined\<close> (\<open>None\<close>) or the first piece of the
  comma-separated \<open>policyID\<close>. The second component is the argument object after the call.
\<close>

definition getPolicyIDFromSearchQuery :: "SearchQueryJSON \<Rightarrow> string option \<times> SearchQueryJSON" where
  "getPolicyIDFromSearchQuery queryJSON =
     (case policyID queryJSON of
        None \<Rightarrow> (None, queryJSON)
      | Some policyIDFilter \<Rightarrow>
          if policyIDFilter = [] then (None, queryJSON)
          else (case split (CHR '','') policyIDFilter of
                  [] \<Rightarrow> (None, queryJSON)
                | firstPolicyID # _ \<Rightarrow> (Some firstPolicyID, queryJSON)))"

section \<open>The merge rule, as the specification words it\<close>

text \<open>
  An entry is merged into the clause before it when it is not the first and it and the entry
  before it are both equalities or both inequalities. A merged entry adds the delimiter and
  its sanitized value; a new clause adds a space, the key, the operator token and the value.
\<close>

definition mergeable :: "QueryFilter list \<Rightarrow> nat \<Rightarrow> bool" where
  "mergeable queryFilters index \<longleftrightarrow>
     index \<noteq> 0 \<and>
     ((operator (queryFilters ! index) = EQUAL_TO \<and> operator (queryFilters ! (index - 1)) = EQUAL_TO) \<or>
      (operator (queryFilters ! index) = NOT_EQUAL_TO \<and>
       operator (queryFilters ! (index - 1)) = NOT_EQUAL_TO))"

definition mergedText :: "string \<Rightarrow> QueryFilter \<Rightarrow> string" where
  "mergedText filterName queryFilter =
     (if filterName = KEYWORD then '' '' else '','') @ sanitizeSearchValue (toString (value queryFilter))"

definition clauseText :: "string \<Rightarrow> QueryFilter \<Rightarrow> string" where
  "clauseText filterName queryFilter =
     '' '' @ filterName @ operatorToCharMap (operator queryFilter) @
     sanitizeSearchValue (toString (value queryFilter))"

text \<open>Entries used in the examples.\<close>

definition eqA :: QueryFilter where
  "eqA = \<lparr>operator = EQUAL_TO, value = QStr ''a''\<rparr>"

definition eqB :: QueryFilter where
  "eqB = \<lparr>operator = EQUAL_TO, value = QStr ''b''\<rparr>"

definition gt5 :: QueryFilter where
  "gt5 = \<lparr>operator = GREATER_THAN, value = QStr ''5''\<rparr>"

definition lt5 :: QueryFilter where
  "lt5 = \<lparr>operator = LOWER_THAN, value = QStr ''5''\<rparr>"

section \<open>The flattener, as the specification words it\<close>

text \<open>
  What the nodes of a tree contribute, in the order of the traversal. A node without an
  operator contributes nothing. Otherwise the left subtree comes first when the left side
  is a node, then the right subtree when the right side is a node (never a list), and then
  the node itself when its left side is a recognised filter key: a string on the right
  gives one entry, a list gives one entry per element in the order of the list, and every
  entry carries the operator of the node. (A node on the right of a key node, which the
  grammar does not produce, gives one entry holding that node.)
\<close>

fun contributions :: "ASTNode \<Rightarrow> (string \<times> QueryFilter list) list" where
  "contributions (ASTNode None left right) = []"
| "contributions (ASTNode (Some op) (LNode l) (RNode r)) = contributions l @ contributions r"
| "contributions (ASTNode (Some op) (LNode l) (RValue s)) = contributions l"
| "contributions (ASTNode (Some op) (LNode l) (RList elements)) = contributions l"
| "contributions (ASTNode (Some op) (LKey k) (RValue s)) =
     (if k \<in> set SYNTAX_FILTER_KEYS then [(k, [\<lparr>operator = op, value = QStr s\<rparr>])] else [])"
| "contributions (ASTNode (Some op) (LKey k) (RList elements)) =
     (if k \<in> set SYNTAX_FILTER_KEYS
      then [(k, map (\<lambda>element. \<lparr>operator = op, value = QStr element\<rparr>) elements)] else [])"
| "contributions (ASTNode (Some op) (LKey k) (RNode r)) =
     contributions r @
     (if k \<in> set SYNTAX_FILTER_KEYS then [(k, [\<lparr>operator = op, value = QNode r\<rparr>])] else [])"

text \<open>The elements of a list in the order of their first occurrences.\<close>

fun firstOccurrences :: "'a list \<Rightarrow> 'a list" where
  "firstOccurrences [] = []"
| "firstOccurrences (x # xs) = x # removeAll x (firstOccurrences xs)"

text \<open>The entries contributed to one key, in the order of the contributions.\<close>

definition entriesOf :: "string \<Rightarrow> (string \<times> QueryFilter list) list \<Rightarrow> QueryFilter list" where
  "entriesOf k groups = concat (map snd (filter (\<lambda>g. fst g = k) groups))"

text \<open>
  Trees for the examples: \<open>merchant:b,a\<close> and \<open>amount>5\<close> under a connective; and a larger
  tree that holds these two, a second \<open>merchant\<close> node (\<open>merchant!=c\<close>), a node whose left
  side is no filter key and a node without an operator.
\<close>

definition merchantBA :: ASTNode where
  "merchantBA = ASTNode (Some EQUAL_TO) (LKey MERCHANT) (RList [''b'', ''a''])"

definition amountGt5 :: ASTNode where
  "amountGt5 = ASTNode (Some GREATER_THAN) (LKey AMOUNT) (RValue ''5'')"

definition exampleTree :: ASTNode where
  "exampleTree = ASTNode (Some AND) (LNode merchantBA) (RNode amountGt5)"

definition merchantNotC :: ASTNode where
  "merchantNotC = ASTNode (Some NOT_EQUAL_TO) (LKey MERCHANT) (RValue ''c'')"

definition unknownKeyNode :: ASTNode where
  "unknownKeyNode = ASTNode (Some EQUAL_TO) (LKey ''colour'') (RValue ''red'')"

definition noOperatorNode :: ASTNode where
  "noOperatorNode = ASTNode None (LKey MERCHANT) (RValue ''z'')"

definition largerTree :: ASTNode where
  "largerTree =
     ASTNode (Some AND) (LNode exampleTree)
       (RNode (ASTNode (Some AND) (LNode merchantNotC)
                 (RNode (ASTNode (Some OR) (LNode unknownKeyNode) (RNode noOperatorNode)))))"

section \<open>Example queries\<close>

text \<open>
  Two queries with the same root fields and, under the key \<open>amount\<close>, the same two entries
  (\<open>amount>5\<close> and \<open>amount<5\<close>) in the two possible orders; and a query whose entries under
  \<open>merchant\<close> are not in the order of their values.
\<close>

definition amountGtLt :: SearchQueryJSON where
  "amountGtLt = defaultQuery\<lparr>flatFilters := [(AMOUNT, [gt5, lt5])]\<rparr>"

definition amountLtGt :: SearchQueryJSON where
  "amountLtGt = defaultQuery\<lparr>flatFilters := [(AMOUNT, [lt5, gt5])]\<rparr>"

definition merchantBAQuery :: SearchQueryJSON where
  "merchantBAQuery = defaultQuery\<lparr>flatFilters := [(MERCHANT, [eqB, eqA])]\<rparr>"

text \<open>
  Modelled from the spec: the parser is not under src/. This stand-in knows the query
  \<open>merchant:b,a\<close> only, parsed to the default root fields and one equality node whose right
  side is the list of the two values.
\<close>

definition merchantBAParser :: Parser where
  "merchantBAParser query =
     (if query = ''merchant:b,a'' then Some (defaultQuery\<lparr>filters := Some merchantBA\<rparr>) else None)"

text \<open>
  The two texts that can be hashed for a query with these root fields and these two
  \<open>amount\<close> entries, one per order of the two clauses.
\<close>

definition amountGtLtText :: string where
  "amountGtLtText = ''type:expense status:all sortBy:date sortOrder:desc  amount>5 amount<5''"

definition amountLtGtText :: string where
  "amountLtGtText = ''type:expense status:all sortBy:date sortOrder:desc  amount<5 amount>5''"

text \<open>Queries with one \<open>merchant\<close> entry and with an empty \<open>merchant\<close> array.\<close>

definition merchantAQuery :: SearchQueryJSON where
  "merchantAQuery = defaultQuery\<lparr>flatFilters := [(MERCHANT, [eqA])]\<rparr>"

definition merchantNoneQuery :: SearchQueryJSON where
  "merchantNoneQuery = defaultQuery\<lparr>flatFilters := [(MERCHANT, [])]\<rparr>"

section \<open>Queries that hold no display value\<close>

text \<open>
  The right side of a node with key \<open>k\<close> holds no display value of the directories: under
  from and to no value is a known login, under the tax rate no value is a tax-rate name,
  under the card no value is the bank of a listed card; under these keys the right side is
  a string or a list of strings.
\<close>

definition noDisplayValue ::
  "(string \<Rightarrow> string option) \<Rightarrow> Card list \<Rightarrow> TaxRates \<Rightarrow> string \<Rightarrow> ASTNode Right \<Rightarrow> bool" where
  "noDisplayValue getAccountIDByEmail cardList taxRates k right =
     (if k = FROM \<or> k = TO then
        (case right of
           RValue v \<Rightarrow> getAccountIDByEmail v = None
         | RList vs \<Rightarrow> list_all (\<lambda>v. getAccountIDByEmail v = None) vs
         | RNode _ \<Rightarrow> False)
      else if k = TAX_RATE then
        (case right of
           RValue v \<Rightarrow> map_of taxRates v = None
         | RList vs \<Rightarrow> list_all (\<lambda>v. map_of taxRates v = None) vs
         | RNode _ \<Rightarrow> False)
      else if k = CARD_ID then
        (case right of
           RValue v \<Rightarrow> cardIDsOfBank cardList v = []
         | RList vs \<Rightarrow> list_all (\<lambda>v. cardIDsOfBank cardList v = []) vs
         | RNode _ \<Rightarrow> False)
      else True)"

text \<open>The same for every node the standardiser visits.\<close>

fun displayFreeNode ::
  "(string \<Rightarrow> string option) \<Rightarrow> Card list \<Rightarrow> TaxRates \<Rightarrow> ASTNode \<Rightarrow> bool" where
  "displayFreeNode getAccountIDByEmail cardList taxRates (ASTNode None left right) = True"
| "displayFreeNode getAccountIDByEmail cardList taxRates (ASTNode (Some op) left right) =
     ((case left of LNode l \<Rightarrow> displayFreeNode getAccountIDByEmail cardList taxRates l | LKey _ \<Rightarrow> True) \<and>
      (case right of RNode r \<Rightarrow> displayFreeNode getAccountIDByEmail cardList taxRates r | _ \<Rightarrow> True) \<and>
      (case left of
         LKey k \<Rightarrow> noDisplayValue getAccountIDByEmail cardList taxRates k right
       | LNode _ \<Rightarrow> True))"

definition displayFreeQuery ::
  "(string \<Rightarrow> string option) \<Rightarrow> Card list \<Rightarrow> TaxRates \<Rightarrow> SearchQueryJSON \<Rightarrow> bool" where
  "displayFreeQuery getAccountIDByEmail cardList taxRates queryJSON =
     (case filters queryJSON of
        None \<Rightarrow> True
      | Some node \<Rightarrow> displayFreeNode getAccountIDByEmail cardList taxRates node)"

text \<open>
  Directories for the examples: no personal details and no cards; tax rates in which the
  identifier \<open>id1\<close> of the rate \<open>VAT\<close> is also the name of a rate, and so is the identifier
  \<open>id2\<close> of that rate; and tax rates with the one rate \<open>VAT\<close>.
\<close>

definition noPersonalDetails :: "string \<Rightarrow> string option" where
  "noPersonalDetails email = None"

definition chainedTaxRates :: TaxRates where
  "chainedTaxRates = [(''VAT'', [''id1'']), (''id1'', [''id2'']), (''id2'', [''id3''])]"

definition plainTaxRates :: TaxRates where
  "plainTaxRates = [(''VAT'', [''id1''])]"

definition taxRateQuery :: "ASTNode Right \<Rightarrow> SearchQueryJSON" where
  "taxRateQuery right =
     defaultQuery\<lparr>filters := Some (ASTNode (Some EQUAL_TO) (LKey TAX_RATE) right)\<rparr>"

definition standardTaxRateQuery :: "string \<Rightarrow> SearchQueryJSON" where
  "standardTaxRateQuery v =
     defaultQuery\<lparr>filters := Some (ASTNode (Some EQUAL_TO) (LKey TAX_RATE) (RList [v])),
                  flatFilters := [(TAX_RATE, [\<lparr>operator = EQUAL_TO, value = QStr v\<rparr>])]\<rparr>"

section \<open>Properties\<close>

subsection \<open>The safe set\<close>

lemma char_eq_code: "c = d \<longleftrightarrow> (of_char c :: nat) = of_char d"
  by simp

lemma upper_range: "CHR ''A'' \<le> c \<and> c \<le> CHR ''Z'' \<longleftrightarrow> c \<in> set ''ABCDEFGHIJKLMNOPQRSTUVWXYZ''"
  unfolding less_eq_char_def set_simps insert_iff empty_iff char_eq_code [of c]
  by simp arith

lemma lower_range: "CHR ''a'' \<le> c \<and> c \<le> CHR ''z'' \<longleftrightarrow> c \<in> set ''abcdefghijklmnopqrstuvwxyz''"
  unfolding less_eq_char_def set_simps insert_iff empty_iff char_eq_code [of c]
  by simp arith

lemma digit_range: "CHR ''0'' \<le> c \<and> c \<le> CHR ''9'' \<longleftrightarrow> c \<in> set ''0123456789''"
  unfolding less_eq_char_def set_simps insert_iff empty_iff char_eq_code [of c]
  by simp arith

lemma inClass_safeSet: "inClass c \<longleftrightarrow> c \<in> safeSet"
  unfolding inClass_def safeSet_def Un_iff upper_range lower_range digit_range by auto

lemma regexpTest_iff: "regexpTest str \<longleftrightarrow> \<not> set str \<subseteq> safeSet"
  by (auto simp: regexpTest_def list_ex_iff inClass_safeSet)

lemma quoted_neq: "[dquote] @ s @ [dquote] \<noteq> s"
proof
  assume "[dquote] @ s @ [dquote] = s"
  then have "length ([dquote] @ s @ [dquote]) = length s" by simp
  then show False by simp
qed

text \<open>
  C8. \<open>sanitizeSearchValue\<close> returns its input unchanged exactly when every character of the
  input is in the safe set, and otherwise the input between two double quotes, with
  nothing escaped; \<open>hello world\<close> is quoted and \<open>abc123\<close> is returned as it is.
\<close>

theorem sanitizeSearchValue_safe_or_quoted:
  "(sanitizeSearchValue str = str \<longleftrightarrow> set str \<subseteq> safeSet) \<and>
   (\<not> set str \<subseteq> safeSet \<longrightarrow> sanitizeSearchValue str = [dquote] @ str @ [dquote]) \<and>
   sanitizeSearchValue ''hello world'' = [dquote] @ ''hello world'' @ [dquote] \<and>
   sanitizeSearchValue ''abc123'' = ''abc123''"
proof -
  have quoted: "sanitizeSearchValue s = [dquote] @ s @ [dquote]" if "\<not> set s \<subseteq> safeSet" for s
    using that by (simp add: sanitizeSearchValue_def regexpTest_iff)
  have same: "sanitizeSearchValue s = s" if "set s \<subseteq> safeSet" for s
    using that by (simp add: sanitizeSearchValue_def regexpTest_iff)
  have unsafe: "\<not> set ''hello world'' \<subseteq> safeSet"
    by (simp add: safeSet_def backslash_def squote_def dquote_def)
  have safe: "set ''abc123'' \<subseteq> safeSet"
    by (simp add: safeSet_def)
  have differs: "sanitizeSearchValue str \<noteq> str" if "\<not> set str \<subseteq> safeSet"
    using quoted [OF that] quoted_neq [of str] by simp
  show ?thesis
    using same [of str] differs quoted [of str] quoted [OF unsafe] same [OF safe] by blast
qed

theorem sanitizeSearchValue_witness:
  "sanitizeSearchValue ''a b'' \<noteq> ''a b'' \<and> sanitizeSearchValue ''a b'' = [dquote] @ ''a b'' @ [dquote]"
proof -
  have "\<not> set ''a b'' \<subseteq> safeSet"
    by (simp add: safeSet_def backslash_def squote_def dquote_def)
  with sanitizeSearchValue_safe_or_quoted [of "''a b''"] show ?thesis by blast
qed

subsection \<open>The policy identifier\<close>

lemma split_takeWhile: "split sep s = takeWhile (\<lambda>c. c \<noteq> sep) s # tl (split sep s)"
  by (induction s) (auto split: list.splits)

text \<open>
  C10. \<open>getPolicyIDFromSearchQuery\<close> returns nothing when \<open>policyID\<close> is absent or empty, and
  otherwise the part of \<open>policyID\<close> before its first comma (all of it when it has no comma);
  the query is the same after the call.
\<close>

theorem getPolicyIDFromSearchQuery_first_piece:
  "getPolicyIDFromSearchQuery queryJSON =
     ((case policyID queryJSON of
         None \<Rightarrow> None
       | Some p \<Rightarrow> if p = [] then None else Some (takeWhile (\<lambda>c. c \<noteq> CHR '','') p)),
      queryJSON) \<and>
   (\<forall>p rest. policyID queryJSON = Some (p @ CHR '','' # rest) \<and> CHR '','' \<notin> set p \<longrightarrow>
      fst (getPolicyIDFromSearchQuery queryJSON) = Some p) \<and>
   (\<forall>p. policyID queryJSON = Some p \<and> p \<noteq> [] \<and> CHR '','' \<notin> set p \<longrightarrow>
      fst (getPolicyIDFromSearchQuery queryJSON) = Some p)"
proof -
  have general: "getPolicyIDFromSearchQuery queryJSON =
     ((case policyID queryJSON of
         None \<Rightarrow> None
       | Some p \<Rightarrow> if p = [] then None else Some (takeWhile (\<lambda>c. c \<noteq> CHR '','') p)),
      queryJSON)"
  proof (cases "policyID queryJSON")
    case None
    then show ?thesis by (simp add: getPolicyIDFromSearchQuery_def)
  next
    case (Some p)
    obtain rest where "split (CHR '','') p = takeWhile (\<lambda>c. c \<noteq> CHR '','') p # rest"
      using split_takeWhile by blast
    with Some show ?thesis by (simp add: getPolicyIDFromSearchQuery_def)
  qed
  have before: "takeWhile (\<lambda>c. c \<noteq> CHR '','') (p @ CHR '','' # rest) = p" if "CHR '','' \<notin> set p"
    for p rest :: string
    using that by (induction p) auto
  have whole: "takeWhile (\<lambda>c. c \<noteq> CHR '','') p = p" if "CHR '','' \<notin> set p" for p :: string
    using that by (induction p) auto
  have "fst (getPolicyIDFromSearchQuery queryJSON) = Some p"
    if "policyID queryJSON = Some (p @ CHR '','' # rest)" "CHR '','' \<notin> set p" for p rest
    using that before [of p rest] by (simp add: general)
  moreover have "fst (getPolicyIDFromSearchQuery queryJSON) = Some p"
    if "policyID queryJSON = Some p" "p \<noteq> []" "CHR '','' \<notin> set p" for p
    using that whole [of p] by (simp add: general)
  ultimately show ?thesis using general by blast
qed

theorem getPolicyIDFromSearchQuery_witness:
  "fst (getPolicyIDFromSearchQuery (defaultQuery\<lparr>policyID := Some ''A1,B2''\<rparr>)) = Some ''A1'' \<and>
   fst (getPolicyIDFromSearchQuery (defaultQuery\<lparr>policyID := Some ''A1''\<rparr>)) = Some ''A1''"
proof -
  have a: "policyID (defaultQuery\<lparr>policyID := Some ''A1,B2''\<rparr>) = Some (''A1'' @ CHR '','' # ''B2'') \<and>
           CHR '','' \<notin> set ''A1''"
    by simp
  have b: "policyID (defaultQuery\<lparr>policyID := Some ''A1''\<rparr>) = Some ''A1'' \<and> ''A1'' \<noteq> [] \<and>
           CHR '','' \<notin> set ''A1''"
    by simp
  from getPolicyIDFromSearchQuery_first_piece [of "defaultQuery\<lparr>policyID := Some ''A1,B2''\<rparr>"] a
  have "fst (getPolicyIDFromSearchQuery (defaultQuery\<lparr>policyID := Some ''A1,B2''\<rparr>)) = Some ''A1''"
    by blast
  moreover
  from getPolicyIDFromSearchQuery_first_piece [of "defaultQuery\<lparr>policyID := Some ''A1''\<rparr>"] b
  have "fst (getPolicyIDFromSearchQuery (defaultQuery\<lparr>policyID := Some ''A1''\<rparr>)) = Some ''A1''"
    by blast
  ultimately show ?thesis by simp
qed

subsection \<open>The fragment of one filter key\<close>

lemma foldl_append_concat: "foldl (\<lambda>acc i. acc @ f i) a xs = a @ concat (map f xs)"
  by (induction xs arbitrary: a) simp_all

lemma buildFilterValuesString_concat:
  "buildFilterValuesString filterName queryFilters =
     concat (map (appended filterName queryFilters) [0..<length queryFilters])"
  by (simp add: buildFilterValuesString_def foldl_append_concat)

lemma appended_cases:
  "appended filterName qs index =
     (if mergeable qs index \<or> filterName = KEYWORD then mergedText filterName (qs ! index)
      else clauseText filterName (qs ! index))"
  by (auto simp: appended_def mergeable_def mergedText_def clauseText_def Let_def)

lemma clause_not_merged:
  "filterName \<noteq> KEYWORD \<Longrightarrow> clauseText filterName qf \<noteq> mergedText filterName qf"
  by (simp add: clauseText_def mergedText_def)

lemma merchant_eq_eq: "buildFilterValuesString MERCHANT [eqA, eqB] = '' merchant:a,b''"
  by code_simp

lemma merchant_eq_gt: "buildFilterValuesString MERCHANT [eqA, gt5] = '' merchant:a merchant>5''"
  by code_simp

lemma keyword_eq_gt: "buildFilterValuesString KEYWORD [eqA, gt5] = '' a 5''"
  by code_simp

text \<open>
  C3, as the code has it. The fragment is the concatenation of what each entry appends.
  For a filter key other than the keyword key, an entry is merged (delimiter and sanitized
  value only) exactly when it is not the first and it and the entry before it are both
  equalities or both inequalities, and every other entry starts a clause of its own, with
  a leading space, the key and the operator token. For the keyword key every entry, the
  first one too, appends a space and its sanitized value only. For \<open>merchant\<close> the entries
  eq a, eq b give \<open> merchant:a,b\<close> and the entries eq a, gt 5 give \<open> merchant:a merchant>5\<close>,
  each with the leading space.
\<close>

theorem buildFilterValuesString_merge_rule:
  "buildFilterValuesString filterName qs = concat (map (appended filterName qs) [0..<length qs]) \<and>
   (filterName \<noteq> KEYWORD \<longrightarrow>
      (\<forall>index<length qs.
         (appended filterName qs index = mergedText filterName (qs ! index)) = mergeable qs index \<and>
         (\<not> mergeable qs index \<longrightarrow> appended filterName qs index = clauseText filterName (qs ! index)))) \<and>
   (filterName = KEYWORD \<longrightarrow>
      (\<forall>index<length qs. appended filterName qs index = mergedText filterName (qs ! index))) \<and>
   buildFilterValuesString MERCHANT [eqA, eqB] = '' merchant:a,b'' \<and>
   buildFilterValuesString MERCHANT [eqA, gt5] = '' merchant:a merchant>5''"
  using buildFilterValuesString_concat [of filterName qs] merchant_eq_eq merchant_eq_gt
  by (auto simp: appended_cases clause_not_merged)

theorem merge_rule_witness:
  "appended MERCHANT [eqA, eqB] 1 = mergedText MERCHANT eqB \<and>
   appended MERCHANT [eqA, gt5] 1 = clauseText MERCHANT gt5 \<and>
   appended KEYWORD [eqA, gt5] 0 = mergedText KEYWORD eqA"
proof -
  have k: "MERCHANT \<noteq> KEYWORD" by (simp add: MERCHANT_def KEYWORD_def)
  have m: "mergeable [eqA, eqB] 1" by (simp add: mergeable_def eqA_def eqB_def)
  have n: "\<not> mergeable [eqA, gt5] 1" by (simp add: mergeable_def eqA_def gt5_def)
  have l: "(1::nat) < length [eqA, eqB]" "(1::nat) < length [eqA, gt5]" "(0::nat) < length [eqA, gt5]"
    by simp_all
  from buildFilterValuesString_merge_rule [of MERCHANT "[eqA, eqB]"] k l(1)
  have "(appended MERCHANT [eqA, eqB] 1 = mergedText MERCHANT ([eqA, eqB] ! 1)) = mergeable [eqA, eqB] 1"
    by blast
  with m have a: "appended MERCHANT [eqA, eqB] 1 = mergedText MERCHANT ([eqA, eqB] ! 1)" by blast
  from buildFilterValuesString_merge_rule [of MERCHANT "[eqA, gt5]"] k l(2) n
  have b: "appended MERCHANT [eqA, gt5] 1 = clauseText MERCHANT ([eqA, gt5] ! 1)"
    by blast
  from buildFilterValuesString_merge_rule [of KEYWORD "[eqA, gt5]"] l(3)
  have c: "appended KEYWORD [eqA, gt5] 0 = mergedText KEYWORD ([eqA, gt5] ! 0)"
    by blast
  from a b c show ?thesis by simp
qed

text \<open>
  The claim as stated fails for the keyword key: the entry gt 5 after eq a is appended as a
  delimiter and a value although the operators differ, so the fragment is \<open> a 5\<close>. And the
  fragment of the first \<open>merchant\<close> example is not the bare clause \<open>merchant:a,b\<close>: it starts
  with a space.
\<close>

theorem merge_rule_counterexample:
  "appended KEYWORD [eqA, gt5] 1 = mergedText KEYWORD gt5 \<and> \<not> mergeable [eqA, gt5] 1 \<and>
   buildFilterValuesString KEYWORD [eqA, gt5] = '' a 5'' \<and>
   buildFilterValuesString MERCHANT [eqA, eqB] \<noteq> ''merchant:a,b''"
  using merchant_eq_eq keyword_eq_gt by (simp add: appended_cases mergeable_def eqA_def gt5_def)


subsection \<open>The flattened filters\<close>

lemma update_snoc:
  "k \<notin> fst ` set fs \<Longrightarrow> AList.update k v (fs @ [(k, w)]) = fs @ [(k, v)]"
  by (induction fs) auto

lemma pushAll_cases:
  "pushAll k es fs =
     (case map_of fs k of None \<Rightarrow> fs @ [(k, es)] | Some a \<Rightarrow> AList.update k (a @ es) fs)"
proof (cases "map_of fs k")
  case None
  then have "k \<notin> fst ` set fs" by (simp add: map_of_eq_None_iff)
  then have "AList.update k ([] @ es) (fs @ [(k, [])]) = fs @ [(k, es)]"
    by (simp add: update_snoc)
  with None show ?thesis
    by (simp add: pushAll_def Let_def map_add_def)
next
  case (Some a)
  then show ?thesis by (simp add: pushAll_def Let_def)
qed

lemma pushAll_keys:
  "map fst (pushAll k es fs) = (if k \<in> set (map fst fs) then map fst fs else map fst fs @ [k])"
proof (cases "map_of fs k")
  case None
  then have "k \<notin> fst ` set fs" by (simp add: map_of_eq_None_iff)
  with None show ?thesis by (simp add: pushAll_cases)
next
  case (Some a)
  then have "k \<in> fst ` set fs" by (metis map_of_eq_None_iff option.distinct(1))
  with Some show ?thesis by (simp add: pushAll_cases update_keys)
qed

lemma pushAll_lookup:
  "map_of (pushAll k es fs) k' =
     (if k' = k then Some ((case map_of fs k of None \<Rightarrow> [] | Some a \<Rightarrow> a) @ es) else map_of fs k')"
  by (cases "map_of fs k") (auto simp: pushAll_cases update_conv' map_add_def split: option.splits)

lemma traverse_contributions:
  "traverse node fs = foldl (\<lambda>acc g. pushAll (fst g) (snd g) acc) fs (contributions node)"
proof (induction node fs rule: traverse.induct)
  case (1 nodeOperator left right filtersObj)
  show ?case
  proof (cases nodeOperator)
    case None
    then show ?thesis by simp
  next
    case (Some op)
    show ?thesis
    proof (cases left)
      case (LKey k)
      with Some "1.IH" show ?thesis
        by (cases right) (simp_all add: Let_def ownEntries_def)
    next
      case (LNode l)
      with Some "1.IH" show ?thesis
        by (cases right) (simp_all add: Let_def)
    qed
  qed
qed

lemma groups_keys:
  "map fst (foldl (\<lambda>acc g. pushAll (fst g) (snd g) acc) fs groups) =
     map fst fs @ filter (\<lambda>k. k \<notin> set (map fst fs)) (firstOccurrences (map fst groups))"
proof (induction groups arbitrary: fs)
  case Nil
  then show ?case by simp
next
  case (Cons g groups)
  have rm: "filter P (removeAll k xs) = filter (\<lambda>x. x \<noteq> k \<and> P x) xs" for P k and xs :: "string list"
    by (induction xs) auto
  show ?case
  proof (cases "fst g \<in> set (map fst fs)")
    case True
    then have "filter (\<lambda>x. x \<noteq> fst g \<and> x \<notin> set (map fst fs)) xs = filter (\<lambda>x. x \<notin> set (map fst fs)) xs" for xs
      by (intro filter_cong) auto
    with True show ?thesis by (simp add: Cons.IH pushAll_keys rm)
  next
    case False
    then have "filter (\<lambda>x. x \<noteq> fst g \<and> x \<notin> set (map fst fs)) xs =
               filter (\<lambda>x. x \<notin> set (map fst fs @ [fst g])) xs" for xs
      by (intro filter_cong) auto
    with False show ?thesis by (simp add: Cons.IH pushAll_keys rm)
  qed
qed

lemma groups_lookup:
  "map_of (foldl (\<lambda>acc g. pushAll (fst g) (snd g) acc) fs groups) k =
     (if k \<in> fst ` set groups \<or> map_of fs k \<noteq> None
      then Some ((case map_of fs k of None \<Rightarrow> [] | Some a \<Rightarrow> a) @ entriesOf k groups)
      else None)"
proof (induction groups arbitrary: fs)
  case Nil
  then show ?case by (auto simp: entriesOf_def)
next
  case (Cons g groups)
  show ?case
    by (cases "map_of fs k") (auto simp: Cons.IH pushAll_lookup entriesOf_def)
qed

text \<open>
  C9. \<open>getFilters\<close> visits the left side of a node first when it is a node, then the right side
  when it is a node and not a list, and then, when the left side of the node is a recognised
  filter key, appends to the sequence of that key one entry for a string on the right and
  one entry per element, in the order of the list, for a list on the right, each with the
  operator of the node. So a tree of one such node gives that one sequence; and for every
  tree the keys of the result stand in the order of their first contribution, and the
  sequence of each key is the concatenation of what the nodes contributed to it, in the
  order of the traversal. Nodes with another left side and nodes without an operator
  contribute nothing, and without a tree the result is empty.
\<close>

theorem getFilters_traversal_order:
  "(filters q = None \<longrightarrow> getFilters q = []) \<and>
   (filters q = Some (ASTNode None left right) \<longrightarrow> getFilters q = []) \<and>
   (filters q = Some (ASTNode (Some op) (LKey key) (RValue s)) \<longrightarrow>
      getFilters q =
        (if key \<in> set SYNTAX_FILTER_KEYS then [(key, [\<lparr>operator = op, value = QStr s\<rparr>])] else [])) \<and>
   (filters q = Some (ASTNode (Some op) (LKey key) (RList elements)) \<longrightarrow>
      getFilters q =
        (if key \<in> set SYNTAX_FILTER_KEYS
         then [(key, map (\<lambda>element. \<lparr>operator = op, value = QStr element\<rparr>) elements)] else [])) \<and>
   (filters q = Some node \<longrightarrow>
      map fst (getFilters q) = firstOccurrences (map fst (contributions node)) \<and>
      (\<forall>k. map_of (getFilters q) k =
             (if k \<in> fst ` set (contributions node) then Some (entriesOf k (contributions node))
              else None)))"
proof -
  have empty: "getFilters q = []" if "filters q = None"
    using that by (simp add: getFilters_def)
  have none: "getFilters q = []" if "filters q = Some (ASTNode None left right)"
    using that by (simp add: getFilters_def)
  have scalar: "getFilters q =
      (if key \<in> set SYNTAX_FILTER_KEYS then [(key, [\<lparr>operator = op, value = QStr s\<rparr>])] else [])"
    if "filters q = Some (ASTNode (Some op) (LKey key) (RValue s))"
    using that by (simp add: getFilters_def Let_def pushAll_cases ownEntries_def)
  have listed: "getFilters q =
      (if key \<in> set SYNTAX_FILTER_KEYS
       then [(key, map (\<lambda>element. \<lparr>operator = op, value = QStr element\<rparr>) elements)] else [])"
    if "filters q = Some (ASTNode (Some op) (LKey key) (RList elements))"
    using that by (simp add: getFilters_def Let_def pushAll_cases ownEntries_def)
  have folded: "getFilters q = foldl (\<lambda>acc g. pushAll (fst g) (snd g) acc) [] (contributions node)"
    if "filters q = Some node"
    using that by (simp add: getFilters_def traverse_contributions)
  have keys: "map fst (getFilters q) = firstOccurrences (map fst (contributions node))"
    if "filters q = Some node"
    using folded [OF that] groups_keys [of "[]" "contributions node"] by simp
  have lookup: "map_of (getFilters q) k =
      (if k \<in> fst ` set (contributions node) then Some (entriesOf k (contributions node)) else None)"
    if "filters q = Some node" for k
    using folded [OF that] groups_lookup [of "[]" "contributions node" k] by simp
  from empty none scalar listed keys lookup show ?thesis by blast
qed

lemma exampleTree_contributions:
  "contributions exampleTree =
     [(MERCHANT, [\<lparr>operator = EQUAL_TO, value = QStr ''b''\<rparr>, \<lparr>operator = EQUAL_TO, value = QStr ''a''\<rparr>]),
      (AMOUNT, [\<lparr>operator = GREATER_THAN, value = QStr ''5''\<rparr>])]"
  by (simp add: exampleTree_def merchantBA_def amountGt5_def SYNTAX_FILTER_KEYS_def
      MERCHANT_def AMOUNT_def)

lemma largerTree_contributions:
  "contributions largerTree =
     [(MERCHANT, [\<lparr>operator = EQUAL_TO, value = QStr ''b''\<rparr>, \<lparr>operator = EQUAL_TO, value = QStr ''a''\<rparr>]),
      (AMOUNT, [\<lparr>operator = GREATER_THAN, value = QStr ''5''\<rparr>]),
      (MERCHANT, [\<lparr>operator = NOT_EQUAL_TO, value = QStr ''c''\<rparr>])]"
  by code_simp

theorem getFilters_witness:
  "getFilters defaultQuery = [] \<and>
   getFilters (defaultQuery\<lparr>filters := Some noOperatorNode\<rparr>) = [] \<and>
   getFilters (defaultQuery\<lparr>filters := Some unknownKeyNode\<rparr>) = [] \<and>
   getFilters (defaultQuery\<lparr>filters := Some amountGt5\<rparr>) =
     [(AMOUNT, [\<lparr>operator = GREATER_THAN, value = QStr ''5''\<rparr>])] \<and>
   getFilters (defaultQuery\<lparr>filters := Some merchantBA\<rparr>) =
     [(MERCHANT, [\<lparr>operator = EQUAL_TO, value = QStr ''b''\<rparr>, \<lparr>operator = EQUAL_TO, value = QStr ''a''\<rparr>])] \<and>
   map fst (getFilters (defaultQuery\<lparr>filters := Some largerTree\<rparr>)) = [MERCHANT, AMOUNT] \<and>
   map_of (getFilters (defaultQuery\<lparr>filters := Some largerTree\<rparr>)) MERCHANT =
     Some [\<lparr>operator = EQUAL_TO, value = QStr ''b''\<rparr>, \<lparr>operator = EQUAL_TO, value = QStr ''a''\<rparr>,
           \<lparr>operator = NOT_EQUAL_TO, value = QStr ''c''\<rparr>] \<and>
   map_of (getFilters (defaultQuery\<lparr>filters := Some largerTree\<rparr>)) AMOUNT =
     Some [\<lparr>operator = GREATER_THAN, value = QStr ''5''\<rparr>] \<and>
   map_of (getFilters (defaultQuery\<lparr>filters := Some largerTree\<rparr>)) ''colour'' = None"
proof -
  let ?q = "defaultQuery\<lparr>filters := Some largerTree\<rparr>"
  have ne: "MERCHANT \<noteq> AMOUNT" "''colour'' \<noteq> MERCHANT" "''colour'' \<noteq> AMOUNT"
    by (simp_all add: MERCHANT_def AMOUNT_def)
  have keys: "MERCHANT \<in> set SYNTAX_FILTER_KEYS" "AMOUNT \<in> set SYNTAX_FILTER_KEYS"
    "''colour'' \<notin> set SYNTAX_FILTER_KEYS"
    by code_simp+
  have "filters defaultQuery = None" by (simp add: defaultQuery_def)
  with getFilters_traversal_order [of defaultQuery] have c1: "getFilters defaultQuery = []"
    by blast
  have "filters (defaultQuery\<lparr>filters := Some noOperatorNode\<rparr>) =
      Some (ASTNode None (LKey MERCHANT) (RValue ''z''))"
    by (simp add: noOperatorNode_def)
  with getFilters_traversal_order
    [of "defaultQuery\<lparr>filters := Some noOperatorNode\<rparr>" "LKey MERCHANT" "RValue ''z''"]
  have c2: "getFilters (defaultQuery\<lparr>filters := Some noOperatorNode\<rparr>) = []"
    by blast
  have "filters (defaultQuery\<lparr>filters := Some unknownKeyNode\<rparr>) =
      Some (ASTNode (Some EQUAL_TO) (LKey ''colour'') (RValue ''red''))"
    by (simp add: unknownKeyNode_def)
  with getFilters_traversal_order
    [of "defaultQuery\<lparr>filters := Some unknownKeyNode\<rparr>" _ _ EQUAL_TO "''colour''" "''red''"]
  have "getFilters (defaultQuery\<lparr>filters := Some unknownKeyNode\<rparr>) =
      (if ''colour'' \<in> set SYNTAX_FILTER_KEYS
       then [(''colour'', [\<lparr>operator = EQUAL_TO, value = QStr ''red''\<rparr>])] else [])"
    by blast
  with keys have c3: "getFilters (defaultQuery\<lparr>filters := Some unknownKeyNode\<rparr>) = []"
    by simp
  have "filters (defaultQuery\<lparr>filters := Some amountGt5\<rparr>) =
      Some (ASTNode (Some GREATER_THAN) (LKey AMOUNT) (RValue ''5''))"
    by (simp add: amountGt5_def)
  with getFilters_traversal_order
    [of "defaultQuery\<lparr>filters := Some amountGt5\<rparr>" _ _ GREATER_THAN AMOUNT "''5''"]
  have "getFilters (defaultQuery\<lparr>filters := Some amountGt5\<rparr>) =
      (if AMOUNT \<in> set SYNTAX_FILTER_KEYS
       then [(AMOUNT, [\<lparr>operator = GREATER_THAN, value = QStr ''5''\<rparr>])] else [])"
    by blast
  with keys have c4: "getFilters (defaultQuery\<lparr>filters := Some amountGt5\<rparr>) =
      [(AMOUNT, [\<lparr>operator = GREATER_THAN, value = QStr ''5''\<rparr>])]"
    by simp
  have "filters (defaultQuery\<lparr>filters := Some merchantBA\<rparr>) =
      Some (ASTNode (Some EQUAL_TO) (LKey MERCHANT) (RList [''b'', ''a'']))"
    by (simp add: merchantBA_def)
  with getFilters_traversal_order
    [of "defaultQuery\<lparr>filters := Some merchantBA\<rparr>" _ _ EQUAL_TO MERCHANT _ "[''b'', ''a'']"]
  have "getFilters (defaultQuery\<lparr>filters := Some merchantBA\<rparr>) =
      (if MERCHANT \<in> set SYNTAX_FILTER_KEYS
       then [(MERCHANT, map (\<lambda>element. \<lparr>operator = EQUAL_TO, value = QStr element\<rparr>) [''b'', ''a''])]
       else [])"
    by blast
  with keys have c5: "getFilters (defaultQuery\<lparr>filters := Some merchantBA\<rparr>) =
      [(MERCHANT, [\<lparr>operator = EQUAL_TO, value = QStr ''b''\<rparr>, \<lparr>operator = EQUAL_TO, value = QStr ''a''\<rparr>])]"
    by simp
  have f: "filters ?q = Some largerTree" by simp
  from getFilters_traversal_order [of ?q _ _ _ _ _ _ largerTree] f
  have k: "map fst (getFilters ?q) = firstOccurrences (map fst (contributions largerTree))"
    and l: "map_of (getFilters ?q) k =
             (if k \<in> fst ` set (contributions largerTree)
              then Some (entriesOf k (contributions largerTree)) else None)" for k
    by blast+
  from k ne have c6: "map fst (getFilters ?q) = [MERCHANT, AMOUNT]"
    by (simp add: largerTree_contributions)
  from l [of MERCHANT] ne have c7: "map_of (getFilters ?q) MERCHANT =
     Some [\<lparr>operator = EQUAL_TO, value = QStr ''b''\<rparr>, \<lparr>operator = EQUAL_TO, value = QStr ''a''\<rparr>,
           \<lparr>operator = NOT_EQUAL_TO, value = QStr ''c''\<rparr>]"
    by (simp add: largerTree_contributions entriesOf_def)
  from l [of AMOUNT] ne have c8: "map_of (getFilters ?q) AMOUNT =
     Some [\<lparr>operator = GREATER_THAN, value = QStr ''5''\<rparr>]"
    by (simp add: largerTree_contributions entriesOf_def)
  from l [of "''colour''"] ne have c9: "map_of (getFilters ?q) ''colour'' = None"
    by (simp add: largerTree_contributions entriesOf_def)
  from c1 c2 c3 c4 c5 c6 c7 c8 c9 show ?thesis by blast
qed

subsection \<open>The engine's sort\<close>

text \<open>
  Both insertion sorts meet the assumptions made of the engine's sort, so the assumptions
  can be met, and they can be met with either order of entries with equal values.
\<close>

lemma mset_insertSorted: "mset (insertSorted compareFn x ys) = add_mset x (mset ys)"
  by (induction ys) simp_all

lemma set_insertSorted: "set (insertSorted compareFn x ys) = insert x (set ys)"
  using mset_insertSorted [of compareFn x ys] by (metis set_mset_add_mset_insert set_mset_mset)

lemma mset_stableInsertionSort: "mset (stableInsertionSort compareFn xs) = mset xs"
  by (induction xs) (simp_all add: stableInsertionSort_def mset_insertSorted)

lemma set_stableInsertionSort: "set (stableInsertionSort compareFn xs) = set xs"
  using mset_stableInsertionSort [of compareFn xs] by (metis set_mset_mset)

lemma insertSorted_insort_key:
  "insertSorted compareValues x ys = insort_key (\<lambda>q. toString (value q)) x ys"
  by (induction ys) (auto simp: compareValues_def)

lemma stableInsertionSort_sort_key:
  "stableInsertionSort compareValues xs = sort_key (\<lambda>q. toString (value q)) xs"
  by (induction xs) (simp_all add: stableInsertionSort_def insertSorted_insort_key)

lemma insertSorted_map:
  "\<forall>y\<in>set ys. compareFn' (f x) (f y) = compareFn x y \<Longrightarrow>
   insertSorted compareFn' (f x) (map f ys) = map f (insertSorted compareFn x ys)"
  by (induction ys) simp_all

lemma stableInsertionSort_map:
  "\<forall>a\<in>set xs. \<forall>b\<in>set xs. compareFn' (f a) (f b) = compareFn a b \<Longrightarrow>
   stableInsertionSort compareFn' (map f xs) = map f (stableInsertionSort compareFn xs)"
proof (induction xs)
  case Nil
  then show ?case by (simp add: stableInsertionSort_def)
next
  case (Cons x xs)
  from Cons.prems have rest: "\<forall>a\<in>set xs. \<forall>b\<in>set xs. compareFn' (f a) (f b) = compareFn a b"
    by simp
  from Cons.prems have "\<forall>y\<in>set (stableInsertionSort compareFn xs). compareFn' (f x) (f y) = compareFn x y"
    by (simp add: set_stableInsertionSort)
  from insertSorted_map [where ys = "stableInsertionSort compareFn xs" and f = f and x = x
      and compareFn = compareFn and compareFn' = compareFn', OF this]
  have "insertSorted compareFn' (f x) (map f (stableInsertionSort compareFn xs)) =
        map f (insertSorted compareFn x (stableInsertionSort compareFn xs))" .
  moreover have "stableInsertionSort compareFn' (map f (x # xs)) =
      insertSorted compareFn' (f x) (stableInsertionSort compareFn' (map f xs))"
    by (simp add: stableInsertionSort_def)
  moreover have "stableInsertionSort compareFn (x # xs) =
      insertSorted compareFn x (stableInsertionSort compareFn xs)"
    by (simp add: stableInsertionSort_def)
  ultimately show ?case using Cons.IH [OF rest] by simp
qed

lemma engineSort_stableInsertionSort: "engineSort stableInsertionSort"
  unfolding engineSort_def
proof (intro conjI allI impI)
  fix compareFn :: "QueryFilter \<Rightarrow> QueryFilter \<Rightarrow> int" and xs :: "QueryFilter list"
  show "mset (stableInsertionSort compareFn xs) = mset xs"
    by (rule mset_stableInsertionSort)
next
  fix compareFn compareFn' :: "QueryFilter \<Rightarrow> QueryFilter \<Rightarrow> int"
    and f :: "QueryFilter \<Rightarrow> QueryFilter" and xs :: "QueryFilter list"
  assume "\<forall>a\<in>set xs. \<forall>b\<in>set xs. compareFn' (f a) (f b) = compareFn a b"
  from stableInsertionSort_map [where xs = xs and f = f and compareFn = compareFn
      and compareFn' = compareFn', OF this]
  show "stableInsertionSort compareFn' (map f xs) = map f (stableInsertionSort compareFn xs)" .
next
  fix xs :: "QueryFilter list"
  show "sorted (map (\<lambda>queryFilter. toString (value queryFilter)) (stableInsertionSort compareValues xs))"
    by (simp add: stableInsertionSort_sort_key)
qed

lemma tieReversingSort_rev: "tieReversingSort compareFn xs = stableInsertionSort compareFn (rev xs)"
  by (simp add: tieReversingSort_def stableInsertionSort_def foldr_conv_foldl)

lemma engineSort_tieReversingSort: "engineSort tieReversingSort"
  unfolding engineSort_def
proof (intro conjI allI impI)
  fix compareFn :: "QueryFilter \<Rightarrow> QueryFilter \<Rightarrow> int" and xs :: "QueryFilter list"
  show "mset (tieReversingSort compareFn xs) = mset xs"
    by (simp add: tieReversingSort_rev mset_stableInsertionSort)
next
  fix compareFn compareFn' :: "QueryFilter \<Rightarrow> QueryFilter \<Rightarrow> int"
    and f :: "QueryFilter \<Rightarrow> QueryFilter" and xs :: "QueryFilter list"
  assume "\<forall>a\<in>set xs. \<forall>b\<in>set xs. compareFn' (f a) (f b) = compareFn a b"
  then have "\<forall>a\<in>set (rev xs). \<forall>b\<in>set (rev xs). compareFn' (f a) (f b) = compareFn a b"
    by simp
  from stableInsertionSort_map [where xs = "rev xs" and f = f and compareFn = compareFn
      and compareFn' = compareFn', OF this]
  show "tieReversingSort compareFn' (map f xs) = map f (tieReversingSort compareFn xs)"
    by (simp add: tieReversingSort_rev rev_map)
next
  fix xs :: "QueryFilter list"
  show "sorted (map (\<lambda>queryFilter. toString (value queryFilter)) (tieReversingSort compareValues xs))"
    by (simp add: tieReversingSort_rev stableInsertionSort_sort_key)
qed

text \<open>What the assumptions give: a rearrangement of two entries is one of the two orders.\<close>

lemma two_entries:
  assumes "mset ys = mset [a, b]"
  shows "ys = [a, b] \<or> ys = [b, a]"
proof -
  from assms have "length ys = length [a, b]" by (rule mset_eq_length)
  then obtain x y where ys: "ys = [x, y]"
    by (cases ys; cases "tl ys") auto
  with assms have "{#x, y#} = {#a, b#}" by simp
  then have "x = a \<and> y = b \<or> x = b \<and> y = a"
    by (auto simp: add_eq_conv_ex)
  with ys show ?thesis by auto
qed

lemma engineSort_two_entries:
  "engineSort sortImpl \<Longrightarrow>
   sortImpl compareFn [a, b] = [a, b] \<or> sortImpl compareFn [a, b] = [b, a]"
  by (rule two_entries) (simp add: engineSort_def)

text \<open>
  The two \<open>amount\<close> entries have the same value, so the comparator answers the same on every
  pair of them, and the sort cannot tell the array \<open>[gt5, lt5]\<close> from the array \<open>[lt5, gt5]\<close>:
  it keeps both as they are or reverses both.
\<close>

lemma engineSort_equal_values:
  assumes "engineSort sortImpl"
  shows "sortImpl compareValues [gt5, lt5] = [gt5, lt5] \<and> sortImpl compareValues [lt5, gt5] = [lt5, gt5] \<or>
         sortImpl compareValues [gt5, lt5] = [lt5, gt5] \<and> sortImpl compareValues [lt5, gt5] = [gt5, lt5]"
proof -
  define f where "f = (\<lambda>queryFilter. if queryFilter = gt5 then lt5 else gt5)"
  have ne: "gt5 \<noteq> lt5" by (simp add: gt5_def lt5_def)
  have f: "map f [gt5, lt5] = [lt5, gt5]" "map f [lt5, gt5] = [gt5, lt5]"
    using ne by (simp_all add: f_def)
  have "\<forall>a\<in>set [gt5, lt5]. \<forall>b\<in>set [gt5, lt5]. compareValues (f a) (f b) = compareValues a b"
    by (simp add: f_def compareValues_def gt5_def lt5_def)
  with assms have "sortImpl compareValues (map f [gt5, lt5]) = map f (sortImpl compareValues [gt5, lt5])"
    unfolding engineSort_def by blast
  then have swapped: "sortImpl compareValues [lt5, gt5] = map f (sortImpl compareValues [gt5, lt5])"
    by (simp only: f)
  from engineSort_two_entries [OF assms, of compareValues gt5 lt5]
  show ?thesis
  proof
    assume "sortImpl compareValues [gt5, lt5] = [gt5, lt5]"
    with swapped f show ?thesis by simp
  next
    assume "sortImpl compareValues [gt5, lt5] = [lt5, gt5]"
    with swapped f show ?thesis by simp
  qed
qed

text \<open>The two \<open>merchant\<close> entries have different values, so the sort puts \<open>a\<close> before \<open>b\<close>.\<close>

lemma engineSort_distinct_values:
  assumes "engineSort sortImpl"
  shows "sortImpl compareValues [eqB, eqA] = [eqA, eqB]"
proof -
  have d: "distinct (map (\<lambda>queryFilter. toString (value queryFilter)) [eqB, eqA])"
    by (simp add: eqA_def eqB_def)
  with assms have s: "sorted (map (\<lambda>queryFilter. toString (value queryFilter)) (sortImpl compareValues [eqB, eqA]))"
    unfolding engineSort_def by blast
  have "\<not> sorted (map (\<lambda>queryFilter. toString (value queryFilter)) [eqB, eqA])"
    by code_simp
  with s engineSort_two_entries [OF assms, of compareValues eqB eqA] show ?thesis by auto
qed

subsection \<open>The hash and the argument of the hash\<close>

lemma hashRounds_one_key:
  "flatFilters q = [(k, v)] \<Longrightarrow>
   hashRounds sortImpl q =
     (rootText q @ '' '' @ buildFilterValuesString k (sortImpl compareValues v),
      [(k, sortImpl compareValues v)])"
  by (simp add: hashRounds_def hashRound_def Let_def)

lemma rootText_defaultQuery:
  "rootText (defaultQuery\<lparr>flatFilters := f\<rparr>) = ''type:expense status:all sortBy:date sortOrder:desc''"
  by (simp add: rootText_def defaultQuery_def ROOT_TYPE_def ROOT_STATUS_def ROOT_SORT_BY_def
      ROOT_SORT_ORDER_def)

lemma fragment_gt5_lt5: "buildFilterValuesString AMOUNT [gt5, lt5] = '' amount>5 amount<5''"
  by code_simp

lemma fragment_lt5_gt5: "buildFilterValuesString AMOUNT [lt5, gt5] = '' amount<5 amount>5''"
  by code_simp

lemma fragment_eqA_eqB: "buildFilterValuesString MERCHANT [eqA, eqB] = '' merchant:a,b''"
  by code_simp

lemma hashRounds_amount:
  "hashRounds sortImpl (defaultQuery\<lparr>flatFilters := [(AMOUNT, v)]\<rparr>) =
     (''type:expense status:all sortBy:date sortOrder:desc '' @
        buildFilterValuesString AMOUNT (sortImpl compareValues v),
      [(AMOUNT, sortImpl compareValues v)])"
  using hashRounds_one_key [of "defaultQuery\<lparr>flatFilters := [(AMOUNT, v)]\<rparr>" AMOUNT v sortImpl]
  by (simp add: rootText_defaultQuery)

lemma hashRounds_merchantBA:
  assumes "engineSort sortImpl"
  shows "hashRounds sortImpl merchantBAQuery =
     (''type:expense status:all sortBy:date sortOrder:desc  merchant:a,b'', [(MERCHANT, [eqA, eqB])])"
  using hashRounds_one_key [of merchantBAQuery MERCHANT "[eqB, eqA]" sortImpl]
  by (simp add: merchantBAQuery_def rootText_defaultQuery engineSort_distinct_values [OF assms]
      fragment_eqA_eqB)

lemma amount_texts_differ: "amountGtLtText \<noteq> amountLtGtText"
  by (simp add: amountGtLtText_def amountLtGtText_def)

lemma hash_amountGtLtText: "polynomialHashText amountGtLtText (2 ^ 32) = 426061627"
  by (simp add: polynomialHashText_def amountGtLtText_def)

lemma hash_amountLtGtText: "polynomialHashText amountLtGtText (2 ^ 32) = 4019964407"
  by (simp add: polynomialHashText_def amountLtGtText_def)

lemma amount_texts:
  assumes "engineSort sortImpl"
  shows "fst (hashRounds sortImpl amountGtLt) = amountGtLtText \<and>
         fst (hashRounds sortImpl amountLtGt) = amountLtGtText \<or>
         fst (hashRounds sortImpl amountGtLt) = amountLtGtText \<and>
         fst (hashRounds sortImpl amountLtGt) = amountGtLtText"
  using engineSort_equal_values [OF assms]
  by (auto simp: amountGtLt_def amountLtGt_def hashRounds_amount fragment_gt5_lt5 fragment_lt5_gt5
      amountGtLtText_def amountLtGtText_def)

lemma stable_keeps_equal_values:
  "fst (hashRounds stableInsertionSort amountGtLt) = amountGtLtText"
  by code_simp

lemma reversing_swaps_equal_values:
  "fst (hashRounds tieReversingSort amountGtLt) = amountLtGtText"
  by code_simp

text \<open>
  C1 at a failing input. The two queries have the same root fields and, under \<open>amount\<close>, the
  same two entries \<open>amount>5\<close> and \<open>amount<5\<close> in the two orders. The comparator looks at the
  values only, which are equal, so it answers the same on every pair and an engine's sort
  treats the two arrays alike: it keeps both orders or reverses both. Whichever it does, one
  of the two texts that are hashed has \<open>amount>5\<close> first and the other has \<open>amount<5\<close> first,
  so the texts differ, whatever the hash function; and under the polynomial hash the two
  hashes differ (one is 426061627, the other 4019964407).
\<close>

theorem getQueryHash_depends_on_order_of_equal_values:
  assumes "engineSort sortImpl"
  shows "(fst (hashRounds sortImpl amountGtLt) = amountGtLtText \<and>
          fst (hashRounds sortImpl amountLtGt) = amountLtGtText \<or>
          fst (hashRounds sortImpl amountGtLt) = amountLtGtText \<and>
          fst (hashRounds sortImpl amountLtGt) = amountGtLtText) \<and>
         fst (hashRounds sortImpl amountGtLt) \<noteq> fst (hashRounds sortImpl amountLtGt) \<and>
         fst (getQueryHash sortImpl hashText amountGtLt) =
           hashText (fst (hashRounds sortImpl amountGtLt)) (2 ^ 32) \<and>
         fst (getQueryHash sortImpl hashText amountLtGt) =
           hashText (fst (hashRounds sortImpl amountLtGt)) (2 ^ 32) \<and>
         {fst (getQueryHash sortImpl polynomialHashText amountGtLt),
          fst (getQueryHash sortImpl polynomialHashText amountLtGt)} = {426061627, 4019964407} \<and>
         fst (getQueryHash sortImpl polynomialHashText amountGtLt) \<noteq>
           fst (getQueryHash sortImpl polynomialHashText amountLtGt)"
proof -
  have hashed: "fst (getQueryHash sortImpl h q) = h (fst (hashRounds sortImpl q)) (2 ^ 32)" for h q
    by (simp only: getQueryHash_def Let_def fst_conv)
  from amount_texts [OF assms] show ?thesis
  proof
    assume t: "fst (hashRounds sortImpl amountGtLt) = amountGtLtText \<and>
               fst (hashRounds sortImpl amountLtGt) = amountLtGtText"
    then have "fst (getQueryHash sortImpl polynomialHashText amountGtLt) = 426061627"
      and "fst (getQueryHash sortImpl polynomialHashText amountLtGt) = 4019964407"
      by (simp_all only: hashed hash_amountGtLtText hash_amountLtGtText)
    with t amount_texts_differ hashed show ?thesis by auto
  next
    assume t: "fst (hashRounds sortImpl amountGtLt) = amountLtGtText \<and>
               fst (hashRounds sortImpl amountLtGt) = amountGtLtText"
    then have "fst (getQueryHash sortImpl polynomialHashText amountGtLt) = 4019964407"
      and "fst (getQueryHash sortImpl polynomialHashText amountLtGt) = 426061627"
      by (simp_all only: hashed hash_amountGtLtText hash_amountLtGtText)
    with t amount_texts_differ hashed show ?thesis by auto
  qed
qed

theorem getQueryHash_equal_values_witness:
  "fst (hashRounds stableInsertionSort amountGtLt) = amountGtLtText \<and>
   fst (hashRounds stableInsertionSort amountLtGt) = amountLtGtText \<and>
   fst (getQueryHash stableInsertionSort polynomialHashText amountGtLt) \<noteq>
     fst (getQueryHash stableInsertionSort polynomialHashText amountLtGt) \<and>
   fst (hashRounds tieReversingSort amountGtLt) = amountLtGtText \<and>
   fst (hashRounds tieReversingSort amountLtGt) = amountGtLtText \<and>
   fst (getQueryHash tieReversingSort polynomialHashText amountGtLt) \<noteq>
     fst (getQueryHash tieReversingSort polynomialHashText amountLtGt)"
  using getQueryHash_depends_on_order_of_equal_values
    [OF engineSort_stableInsertionSort, of polynomialHashText]
    getQueryHash_depends_on_order_of_equal_values
    [OF engineSort_tieReversingSort, of polynomialHashText]
    stable_keeps_equal_values reversing_swaps_equal_values amount_texts_differ
  by metis

text \<open>
  C2 at a failing input. The entries under \<open>merchant\<close> are \<open>b\<close>, then \<open>a\<close> before the call;
  \<open>sort\<close> works on the array of the argument itself, and after the call they are \<open>a\<close>, then
  \<open>b\<close>, whatever the hash function and whatever the engine's sort does with equal values
  (there are none here).
\<close>

theorem getQueryHash_sorts_its_argument:
  assumes "engineSort sortImpl"
  shows "flatFilters merchantBAQuery = [(MERCHANT, [eqB, eqA])] \<and>
         flatFilters (snd (getQueryHash sortImpl hashText merchantBAQuery)) = [(MERCHANT, [eqA, eqB])]"
proof -
  have "flatFilters merchantBAQuery = [(MERCHANT, [eqB, eqA])]"
    by (simp add: merchantBAQuery_def)
  moreover have "flatFilters (snd (getQueryHash sortImpl hashText merchantBAQuery)) =
      [(MERCHANT, [eqA, eqB])]"
    by (simp add: getQueryHash_def Let_def hashRounds_merchantBA [OF assms])
  ultimately show ?thesis by simp
qed

theorem getQueryHash_sorts_its_argument_witness:
  "flatFilters merchantBAQuery = [(MERCHANT, [eqB, eqA])] \<and>
   flatFilters (snd (getQueryHash stableInsertionSort polynomialHashText merchantBAQuery)) =
     [(MERCHANT, [eqA, eqB])] \<and>
   flatFilters (snd (getQueryHash tieReversingSort polynomialHashText merchantBAQuery)) =
     [(MERCHANT, [eqA, eqB])]"
  using getQueryHash_sorts_its_argument [OF engineSort_stableInsertionSort, of polynomialHashText]
    getQueryHash_sorts_its_argument [OF engineSort_tieReversingSort, of polynomialHashText]
  by simp

subsection \<open>The parser facade\<close>

lemma getFilters_merchantBA:
  "getFilters (defaultQuery\<lparr>filters := Some merchantBA\<rparr>) = [(MERCHANT, [eqB, eqA])]"
  by code_simp

lemma hashRound_snd: "snd (hashRound sortImpl k (t, f)) = snd (hashRound sortImpl k (t', f))"
  by (simp add: hashRound_def Let_def)

lemma fold_hashRound_snd:
  "snd (fold (hashRound sortImpl) ks (t, f)) = snd (fold (hashRound sortImpl) ks (t', f))"
proof (induction ks arbitrary: t t' f)
  case Nil
  then show ?case by simp
next
  case (Cons k ks)
  obtain t1 f1 where a: "hashRound sortImpl k (t, f) = (t1, f1)"
    by (cases "hashRound sortImpl k (t, f)")
  obtain t2 f2 where b: "hashRound sortImpl k (t', f) = (t2, f2)"
    by (cases "hashRound sortImpl k (t', f)")
  from a b hashRound_snd [of sortImpl k t f t'] have "f1 = f2" by simp
  with a b Cons.IH [of t1 f2 t2] show ?case by simp
qed

lemma hashRounds_snd:
  "flatFilters q = flatFilters q' \<Longrightarrow> snd (hashRounds sortImpl q) = snd (hashRounds sortImpl q')"
  using fold_hashRound_snd
    [of sortImpl "sort (map fst (flatFilters q'))" "rootText q" "flatFilters q'" "rootText q'"]
  by (simp add: hashRounds_def)

lemma buildSearchQueryJSON_flatFilters:
  "parse query = Some parsed \<Longrightarrow>
   map_option flatFilters (buildSearchQueryJSON parse sortImpl hashText query) =
     Some (snd (hashRounds sortImpl (parsed\<lparr>inputQuery := query, flatFilters := getFilters parsed\<rparr>)))"
  by (simp add: buildSearchQueryJSON_def getQueryHash_def Let_def)

text \<open>
  C6 at a failing input. The parser succeeds on \<open>merchant:b,a\<close>; the flattened filters of the
  parsed tree hold \<open>b\<close>, then \<open>a\<close> under \<open>merchant\<close>, and the object that is returned holds
  \<open>a\<close>, then \<open>b\<close>: the hash computation has sorted the array in place, whatever the hash
  function and whatever the engine's sort does with equal values.
\<close>

theorem buildSearchQueryJSON_returns_sorted_flatFilters:
  assumes "engineSort sortImpl"
  shows "merchantBAParser ''merchant:b,a'' = Some (defaultQuery\<lparr>filters := Some merchantBA\<rparr>) \<and>
         getFilters (defaultQuery\<lparr>filters := Some merchantBA\<rparr>) = [(MERCHANT, [eqB, eqA])] \<and>
         map_option flatFilters (buildSearchQueryJSON merchantBAParser sortImpl hashText ''merchant:b,a'') =
           Some [(MERCHANT, [eqA, eqB])]"
proof -
  let ?parsed = "defaultQuery\<lparr>filters := Some merchantBA\<rparr>"
  have p: "merchantBAParser ''merchant:b,a'' = Some ?parsed"
    by (simp add: merchantBAParser_def)
  have "flatFilters (?parsed\<lparr>inputQuery := ''merchant:b,a'', flatFilters := getFilters ?parsed\<rparr>) =
        flatFilters merchantBAQuery"
    by (simp add: getFilters_merchantBA merchantBAQuery_def)
  from hashRounds_snd [OF this] have "snd (hashRounds sortImpl (?parsed\<lparr>inputQuery := ''merchant:b,a'',
        flatFilters := getFilters ?parsed\<rparr>)) = [(MERCHANT, [eqA, eqB])]"
    by (simp add: hashRounds_merchantBA [OF assms])
  with buildSearchQueryJSON_flatFilters [of merchantBAParser "''merchant:b,a''" ?parsed sortImpl hashText]
    getFilters_merchantBA p
  show ?thesis by simp
qed

theorem buildSearchQueryJSON_sorted_witness:
  "merchantBAParser ''merchant:b,a'' = Some (defaultQuery\<lparr>filters := Some merchantBA\<rparr>) \<and>
   getFilters (defaultQuery\<lparr>filters := Some merchantBA\<rparr>) = [(MERCHANT, [eqB, eqA])] \<and>
   map_option flatFilters
     (buildSearchQueryJSON merchantBAParser stableInsertionSort polynomialHashText ''merchant:b,a'') =
     Some [(MERCHANT, [eqA, eqB])] \<and>
   map_option flatFilters
     (buildSearchQueryJSON merchantBAParser tieReversingSort polynomialHashText ''merchant:b,a'') =
     Some [(MERCHANT, [eqA, eqB])]"
  using buildSearchQueryJSON_returns_sorted_flatFilters
    [OF engineSort_stableInsertionSort, of polynomialHashText]
    buildSearchQueryJSON_returns_sorted_flatFilters
    [OF engineSort_tieReversingSort, of polynomialHashText]
  by simp

subsection \<open>The query string\<close>

lemma fold_push_map_filter:
  "fold (\<lambda>k parts. case f k of None \<Rightarrow> parts | Some c \<Rightarrow> parts @ [c]) ks acc =
     acc @ List.map_filter f ks"
  by (induction ks arbitrary: acc) (simp_all add: List.map_filter_simps split: option.splits)

lemma pushRoot_case:
  "pushRoot (Some q) d key parts =
     (case (case (case rootField key q of Some v \<Rightarrow> Some v | None \<Rightarrow> Option.bind d (rootField key)) of
              None \<Rightarrow> None
            | Some v \<Rightarrow> if v = [] then None else Some (key @ '':'' @ v)) of
        None \<Rightarrow> parts
      | Some c \<Rightarrow> parts @ [c])"
  by (simp add: pushRoot_def Let_def split: option.splits)

lemma pushFilter_case:
  "pushFilter flat filterKey parts =
     (case map_option (buildFilterValuesString filterKey) (map_of flat filterKey) of
        None \<Rightarrow> parts
      | Some c \<Rightarrow> parts @ [c])"
  by (simp add: pushFilter_def split: option.splits)

lemma fold_pushRoot: "fold (pushRoot (Some q) d) SYNTAX_ROOT_KEYS [] = rootClauses d q"
  unfolding rootClauses_def pushRoot_case [abs_def] fold_push_map_filter by simp

lemma fold_pushFilter:
  "fold (pushFilter (flatFilters q)) SYNTAX_FILTER_KEYS parts = parts @ filterFragments q"
  unfolding filterFragments_def pushFilter_case [abs_def] fold_push_map_filter by simp

lemma fragment_starts_with_space:
  assumes "qs \<noteq> []"
  shows "\<exists>rest. buildFilterValuesString k qs = CHR '' '' # rest"
proof -
  from assms have "[0..<length qs] = 0 # [1..<length qs]"
    by (simp add: upt_conv_Cons)
  then have "buildFilterValuesString k qs =
      appended k qs 0 @ concat (map (appended k qs) [1..<length qs])"
    by (simp add: buildFilterValuesString_concat)
  moreover have "\<exists>r. appended k qs 0 = CHR '' '' # r"
    by (simp add: appended_def Let_def)
  ultimately show ?thesis by auto
qed

lemma buildSearchQueryString_parts:
  "buildSearchQueryString parse sortImpl hashText (Some q) =
     join '' '' (rootClauses (buildSearchQueryJSON parse sortImpl hashText []) q @ filterFragments q)"
  by (simp add: buildSearchQueryString_def Let_def fold_pushRoot fold_pushFilter)

lemma rootClauses_of_default:
  "type q = ''expense'' \<Longrightarrow> status q = ''all'' \<Longrightarrow> sortBy q = ''date'' \<Longrightarrow> sortOrder q = ''desc'' \<Longrightarrow>
   policyID q = None \<Longrightarrow>
   rootClauses (buildSearchQueryJSON emptyQueryParser sortImpl hashText []) q =
     [''type:expense'', ''status:all'', ''sortBy:date'', ''sortOrder:desc'']"
  by (simp add: rootClauses_def rootField_def defaultQuery_def
      SYNTAX_ROOT_KEYS_def ROOT_TYPE_def ROOT_STATUS_def ROOT_SORT_BY_def ROOT_SORT_ORDER_def
      ROOT_POLICY_ID_def List.map_filter_simps buildSearchQueryJSON_def emptyQueryParser_def
      getQueryHash_def Let_def)

lemma roots_merchantA:
  "rootClauses (buildSearchQueryJSON emptyQueryParser sortImpl hashText []) merchantAQuery =
     [''type:expense'', ''status:all'', ''sortBy:date'', ''sortOrder:desc'']"
  by (rule rootClauses_of_default) (simp_all add: merchantAQuery_def defaultQuery_def)

lemma roots_merchantNone:
  "rootClauses (buildSearchQueryJSON emptyQueryParser sortImpl hashText []) merchantNoneQuery =
     [''type:expense'', ''status:all'', ''sortBy:date'', ''sortOrder:desc'']"
  by (rule rootClauses_of_default) (simp_all add: merchantNoneQuery_def defaultQuery_def)

lemma fragments_merchantA: "filterFragments merchantAQuery = ['' merchant:a'']"
  by code_simp

lemma fragments_merchantNone: "filterFragments merchantNoneQuery = [[]]"
  by code_simp

lemma string_merchantA:
  "buildSearchQueryString emptyQueryParser sortImpl hashText (Some merchantAQuery) =
     ''type:expense status:all sortBy:date sortOrder:desc  merchant:a''"
  by (simp add: buildSearchQueryString_parts roots_merchantA fragments_merchantA)

lemma string_merchantNone:
  "buildSearchQueryString emptyQueryParser sortImpl hashText (Some merchantNoneQuery) =
     ''type:expense status:all sortBy:date sortOrder:desc ''"
  by (simp add: buildSearchQueryString_parts roots_merchantNone fragments_merchantNone)

text \<open>
  C4 at a failing input. For the query with the default root fields and one \<open>merchant\<close> entry
  with value \<open>a\<close> the result has two spaces between \<open>sortOrder:desc\<close> and \<open>merchant:a\<close>: the
  space of the join and the space the fragment begins with. So the result is not joined by
  single spaces. (In general \<open>buildSearchQueryString\<close> joins, with one space between
  neighbours, the root clauses and the fragments of the filter keys that are present, and
  the fragment of every non-empty sequence begins with a space of its own: the two lemmas
  above.)
\<close>

theorem buildSearchQueryString_double_space:
  "buildSearchQueryString emptyQueryParser sortImpl hashText (Some merchantAQuery) =
     ''type:expense status:all sortBy:date sortOrder:desc  merchant:a'' \<and>
   hasSpaceRun (buildSearchQueryString emptyQueryParser sortImpl hashText (Some merchantAQuery))"
proof -
  have "hasSpaceRun ''type:expense status:all sortBy:date sortOrder:desc  merchant:a''"
    by simp
  then show ?thesis by (simp only: string_merchantA simp_thms)
qed

text \<open>
  The result is not trimmed either: with a key whose sequence is empty it ends with the
  space of the join.
\<close>

lemma buildSearchQueryString_not_trimmed:
  "trim (buildSearchQueryString emptyQueryParser sortImpl hashText (Some merchantNoneQuery)) \<noteq>
     buildSearchQueryString emptyQueryParser sortImpl hashText (Some merchantNoneQuery)"
proof -
  have "trim ''type:expense status:all sortBy:date sortOrder:desc '' \<noteq>
     ''type:expense status:all sortBy:date sortOrder:desc ''"
    by (simp add: trim_def isWhiteSpace_def)
  then show ?thesis by (simp only: string_merchantNone simp_thms)
qed

subsection \<open>What the hash computation does in general\<close>

text \<open>
  For a query whose \<open>flatFilters\<close> has distinct keys, \<open>getQueryHash\<close> changes nothing of its
  argument but the array of each key, which is the engine's sort of it afterwards; the text
  that is hashed is the root text followed by the fragment of each key, in the order of the
  sorted keys, of the sorted entries; and with a sort that meets the assumptions two
  queries with the same root text and the same keys hash alike when, key by key, they hold
  the same entries and no two entries of a key have the same value.
\<close>

lemma update_present:
  "distinct (map fst f) \<Longrightarrow> map_of f k = Some v \<Longrightarrow>
   AList.update k w f = map (\<lambda>e. if fst e = k then (k, w) else e) f"
proof (induction f)
  case Nil
  then show ?case by simp
next
  case (Cons e f)
  show ?case
  proof (cases "fst e = k")
    case True
    with Cons.prems have "k \<notin> fst ` set f" by auto
    then have "map (\<lambda>e. if fst e = k then (k, w) else e) f = f"
      by (intro map_idI) auto
    with True show ?thesis by (cases e) simp
  next
    case False
    with Cons show ?thesis by (cases e) auto
  qed
qed

lemma fold_hashRound_flat:
  "distinct (map fst f) \<Longrightarrow> distinct ks \<Longrightarrow>
   snd (fold (hashRound sortImpl) ks (t, f)) =
     map (\<lambda>e. if fst e \<in> set ks then (fst e, sortImpl compareValues (snd e)) else e) f"
proof (induction ks arbitrary: t f)
  case Nil
  then show ?case by simp
next
  case (Cons k ks)
  from Cons.prems(2) have dks: "distinct ks" and kks: "k \<notin> set ks" by simp_all
  show ?case
  proof (cases "map_of f k")
    case None
    then have "k \<notin> fst ` set f" by (simp add: map_of_eq_None_iff)
    then have eq: "map (\<lambda>e. if fst e \<in> set (k # ks) then (fst e, sortImpl compareValues (snd e)) else e) f =
               map (\<lambda>e. if fst e \<in> set ks then (fst e, sortImpl compareValues (snd e)) else e) f"
      by (intro map_cong) auto
    have step: "hashRound sortImpl k (t, f) = (t @ '' '' @ buildFilterValuesString k [], f)"
      using None by (simp add: hashRound_def)
    have "snd (fold (hashRound sortImpl) (k # ks) (t, f)) =
          snd (fold (hashRound sortImpl) ks (t @ '' '' @ buildFilterValuesString k [], f))"
      by (simp only: fold_simps step)
    also have "\<dots> = map (\<lambda>e. if fst e \<in> set ks then (fst e, sortImpl compareValues (snd e)) else e) f"
      by (rule Cons.IH [OF Cons.prems(1) dks])
    finally show ?thesis using eq by (simp only:)
  next
    case (Some v)
    let ?f1 = "AList.update k (sortImpl compareValues v) f"
    let ?t1 = "t @ '' '' @ buildFilterValuesString k (sortImpl compareValues v)"
    have f1: "?f1 = map (\<lambda>e. if fst e = k then (k, sortImpl compareValues v) else e) f"
      using update_present [OF Cons.prems(1) Some] .
    have d1: "distinct (map fst ?f1)" using Cons.prems(1) by (simp add: distinct_update)
    have step: "hashRound sortImpl k (t, f) = (?t1, ?f1)"
      using Some by (simp add: hashRound_def)
    have pointwise:
      "(if fst (if fst e = k then (k, sortImpl compareValues v) else e) \<in> set ks
        then (fst (if fst e = k then (k, sortImpl compareValues v) else e),
              sortImpl compareValues (snd (if fst e = k then (k, sortImpl compareValues v) else e)))
        else (if fst e = k then (k, sortImpl compareValues v) else e)) =
       (if fst e \<in> set (k # ks) then (fst e, sortImpl compareValues (snd e)) else e)"
      if "e \<in> set f" for e
    proof (cases "fst e = k")
      case True
      with that have "(k, snd e) \<in> set f" by (metis prod.collapse)
      with Cons.prems(1) have "map_of f k = Some (snd e)" by simp
      with Some have "snd e = v" by simp
      with True kks show ?thesis by simp
    next
      case False
      then show ?thesis by simp
    qed
    have eq: "map (\<lambda>e. if fst e \<in> set ks then (fst e, sortImpl compareValues (snd e)) else e) ?f1 =
          map (\<lambda>e. if fst e \<in> set (k # ks) then (fst e, sortImpl compareValues (snd e)) else e) f"
      unfolding f1 map_map comp_def by (rule map_cong [OF refl]) (rule pointwise)
    have "snd (fold (hashRound sortImpl) (k # ks) (t, f)) = snd (fold (hashRound sortImpl) ks (?t1, ?f1))"
      by (simp only: fold_simps step)
    also have "\<dots> = map (\<lambda>e. if fst e \<in> set ks then (fst e, sortImpl compareValues (snd e)) else e) ?f1"
      by (rule Cons.IH [OF d1 dks])
    finally show ?thesis using eq by (simp only:)
  qed
qed

lemma getQueryHash_effect:
  assumes "distinct (map fst (flatFilters q))"
  shows "snd (getQueryHash sortImpl hashText q) =
           q\<lparr>flatFilters := map (\<lambda>e. (fst e, sortImpl compareValues (snd e))) (flatFilters q)\<rparr>"
proof -
  have "distinct (sort (map fst (flatFilters q)))" using assms by simp
  note fold_hashRound_flat [where t = "rootText q" and sortImpl = sortImpl, OF assms this]
  moreover have "map (\<lambda>e. if fst e \<in> set (sort (map fst (flatFilters q)))
                         then (fst e, sortImpl compareValues (snd e)) else e) (flatFilters q) =
                 map (\<lambda>e. (fst e, sortImpl compareValues (snd e))) (flatFilters q)"
    by (rule map_cong [OF refl]) simp
  ultimately have "snd (hashRounds sortImpl q) = map (\<lambda>e. (fst e, sortImpl compareValues (snd e))) (flatFilters q)"
    by (simp only: hashRounds_def)
  then show ?thesis by (simp add: getQueryHash_def Let_def)
qed


lemma firstOccurrences_set: "set (firstOccurrences xs) = set xs"
  by (induction xs) auto

lemma firstOccurrences_distinct: "distinct (firstOccurrences xs)"
  by (induction xs) (simp_all add: distinct_removeAll)

lemma getFilters_distinct: "distinct (map fst (getFilters q))"
proof (cases "filters q")
  case None
  then show ?thesis by (simp add: getFilters_def)
next
  case (Some node)
  have "map fst (getFilters q) = firstOccurrences (map fst (contributions node))"
    using Some groups_keys [of "[]" "contributions node"]
    by (simp add: getFilters_def traverse_contributions)
  then show ?thesis by (simp add: firstOccurrences_distinct)
qed

lemma buildSearchQueryJSON_result:
  "buildSearchQueryJSON parse sortImpl hashText query =
     (case parse query of
        None \<Rightarrow> None
      | Some parsed \<Rightarrow>
          Some (parsed\<lparr>inputQuery := query,
                       flatFilters := map (\<lambda>e. (fst e, sortImpl compareValues (snd e))) (getFilters parsed),
                       hash := fst (getQueryHash sortImpl hashText
                                 (parsed\<lparr>inputQuery := query, flatFilters := getFilters parsed\<rparr>))\<rparr>))"
proof (cases "parse query")
  case None
  then show ?thesis by (simp add: buildSearchQueryJSON_def)
next
  case (Some parsed)
  let ?r = "parsed\<lparr>inputQuery := query, flatFilters := getFilters parsed\<rparr>"
  have "distinct (map fst (flatFilters ?r))" by (simp add: getFilters_distinct)
  from getQueryHash_effect [OF this, of sortImpl hashText]
  have "snd (getQueryHash sortImpl hashText ?r) =
          ?r\<lparr>flatFilters := map (\<lambda>e. (fst e, sortImpl compareValues (snd e))) (getFilters parsed)\<rparr>"
    by simp
  with Some show ?thesis by (simp add: buildSearchQueryJSON_def Let_def)
qed

lemma fold_hashRound_text:
  "distinct ks \<Longrightarrow>
   fst (fold (hashRound sortImpl) ks (t, f)) =
     t @ concat (map (\<lambda>k. '' '' @ buildFilterValuesString k
                        (case map_of f k of None \<Rightarrow> [] | Some v \<Rightarrow> sortImpl compareValues v)) ks)"
proof (induction ks arbitrary: t f)
  case Nil
  then show ?case by simp
next
  case (Cons k ks)
  from Cons.prems have dks: "distinct ks" and kks: "k \<notin> set ks" by simp_all
  let ?piece = "\<lambda>g k. '' '' @ buildFilterValuesString k
                        (case map_of g k of None \<Rightarrow> [] | Some v \<Rightarrow> sortImpl compareValues v)"
  obtain f1 where step: "hashRound sortImpl k (t, f) = (t @ ?piece f k, f1)"
    and other: "\<And>k'. k' \<noteq> k \<Longrightarrow> map_of f1 k' = map_of f k'"
    by (cases "map_of f k") (simp_all add: hashRound_def update_conv')
  have "?piece f1 x = ?piece f x" if "x \<in> set ks" for x
  proof -
    from that kks have "x \<noteq> k" by auto
    from other [OF this] show ?thesis by simp
  qed
  then have mapeq: "map (?piece f1) ks = map (?piece f) ks"
    by (intro map_cong) simp_all
  have "fst (fold (hashRound sortImpl) (k # ks) (t, f)) = fst (fold (hashRound sortImpl) ks (t @ ?piece f k, f1))"
    by (simp only: fold_simps step)
  also have "\<dots> = (t @ ?piece f k) @ concat (map (?piece f1) ks)"
    by (rule Cons.IH [OF dks])
  also have "\<dots> = (t @ ?piece f k) @ concat (map (?piece f) ks)"
    by (simp only: mapeq)
  finally show ?case by simp
qed

lemma engineSort_reordered:
  assumes "engineSort sortImpl"
    and "set xs = set ys"
    and "distinct (map (\<lambda>q. toString (value q)) xs)"
    and "distinct (map (\<lambda>q. toString (value q)) ys)"
  shows "sortImpl compareValues xs = sortImpl compareValues ys"
proof -
  let ?f = "\<lambda>q. toString (value q)"
  let ?X = "sortImpl compareValues xs" and ?Y = "sortImpl compareValues ys"
  from assms(1) have mx: "mset ?X = mset xs" and my: "mset ?Y = mset ys"
    unfolding engineSort_def by blast+
  from mx have sx: "set ?X = set xs" by (metis set_mset_mset)
  from my have sy: "set ?Y = set ys" by (metis set_mset_mset)
  from mx have "mset (map ?f ?X) = mset (map ?f xs)" by (metis mset_map)
  with assms(3) have dx: "distinct (map ?f ?X)" by (metis mset_eq_imp_distinct_iff)
  from my have "mset (map ?f ?Y) = mset (map ?f ys)" by (metis mset_map)
  with assms(4) have dy: "distinct (map ?f ?Y)" by (metis mset_eq_imp_distinct_iff)
  from assms(1,3) have ox: "sorted (map ?f ?X)" unfolding engineSort_def by blast
  from assms(1,4) have oy: "sorted (map ?f ?Y)" unfolding engineSort_def by blast
  have "set (map ?f ?X) = set (map ?f ?Y)" using sx sy assms(2) by simp
  with ox oy dx dy have "map ?f ?X = map ?f ?Y" by (intro sorted_distinct_set_unique)
  moreover have "inj_on ?f (set xs)" using assms(3) by (simp add: distinct_map)
  then have "inj_on ?f (set ?X \<union> set ?Y)" using sx sy assms(2) by simp
  ultimately show ?thesis by (simp only: inj_on_map_eq_map)
qed

lemma hashRounds_text:
  assumes "distinct (map fst (flatFilters q))"
  shows "fst (hashRounds sortImpl q) =
           rootText q @
           concat (map (\<lambda>k. '' '' @ buildFilterValuesString k
                          (case map_of (flatFilters q) k of None \<Rightarrow> []
                           | Some v \<Rightarrow> sortImpl compareValues v))
                     (sort (map fst (flatFilters q))))"
proof -
  have "distinct (sort (map fst (flatFilters q)))" using assms by simp
  from fold_hashRound_text [OF this] show ?thesis by (simp only: hashRounds_def)
qed

lemma getQueryHash_reordering:
  assumes sort: "engineSort sortImpl"
    and roots: "rootText q1 = rootText q2"
    and d1: "distinct (map fst (flatFilters q1))"
    and d2: "distinct (map fst (flatFilters q2))"
    and keys: "set (map fst (flatFilters q1)) = set (map fst (flatFilters q2))"
    and entries: "\<And>k v1 v2. map_of (flatFilters q1) k = Some v1 \<Longrightarrow> map_of (flatFilters q2) k = Some v2 \<Longrightarrow>
                   set v1 = set v2 \<and> distinct (map (\<lambda>e. toString (value e)) v1) \<and>
                   distinct (map (\<lambda>e. toString (value e)) v2)"
  shows "fst (getQueryHash sortImpl hashText q1) = fst (getQueryHash sortImpl hashText q2)"
proof -
  let ?piece = "\<lambda>q k. '' '' @ buildFilterValuesString k
                  (case map_of (flatFilters q) k of None \<Rightarrow> [] | Some v \<Rightarrow> sortImpl compareValues v)"
  have ks: "sort (map fst (flatFilters q1)) = sort (map fst (flatFilters q2))"
    by (rule sorted_distinct_set_unique) (simp_all add: d1 d2 keys [simplified])
  have "?piece q1 k = ?piece q2 k" if "k \<in> set (sort (map fst (flatFilters q2)))" for k
  proof -
    from that keys have "k \<in> fst ` set (flatFilters q1)" "k \<in> fst ` set (flatFilters q2)" by simp_all
    then obtain v1 v2 where v: "map_of (flatFilters q1) k = Some v1" "map_of (flatFilters q2) k = Some v2"
      by (meson map_of_eq_None_iff not_Some_eq)
    from entries [OF v] have "sortImpl compareValues v1 = sortImpl compareValues v2"
      by (intro engineSort_reordered [OF sort]) simp_all
    with v show ?thesis by simp
  qed
  then have "map (?piece q1) (sort (map fst (flatFilters q2))) =
             map (?piece q2) (sort (map fst (flatFilters q2)))"
    by (intro map_cong) simp_all
  then have "fst (hashRounds sortImpl q1) = fst (hashRounds sortImpl q2)"
    by (simp only: hashRounds_text [OF d1] hashRounds_text [OF d2] ks roots)
  then show ?thesis by (simp add: getQueryHash_def Let_def)
qed

subsection \<open>The query string of a form\<close>

text \<open>
  C5 at a failing input. The form holds the lower bound of the amount only. The date
  fragment is the empty string, and it is pushed all the same, so that \<open>join\<close> puts a space
  on each side of it: the result has two spaces in front of the amount clause.
\<close>

theorem buildQueryStringFromFilterFormValues_keeps_empty_fragment:
  "buildDateFilterQuery [(FORM_GREATER_THAN, FString ''5'')] = [] \<and>
   buildAmountFilterQuery [(FORM_GREATER_THAN, FString ''5'')] = ''amount>5'' \<and>
   buildQueryStringFromFilterFormValues [(FORM_GREATER_THAN, FString ''5'')] =
     Inr ''sortBy:date sortOrder:desc  amount>5''"
proof -
  have "buildDateFilterQuery [(FORM_GREATER_THAN, FString ''5'')] = []"
    by code_simp
  moreover have "buildAmountFilterQuery [(FORM_GREATER_THAN, FString ''5'')] = ''amount>5''"
    by code_simp
  moreover have "buildQueryStringFromFilterFormValues [(FORM_GREATER_THAN, FString ''5'')] =
     Inr ''sortBy:date sortOrder:desc  amount>5''"
    by code_simp
  ultimately show ?thesis by simp
qed



subsection \<open>Standardising twice\<close>

lemma map_accountIDOr_miss:
  "list_all (\<lambda>v. g v = None) vs \<Longrightarrow> map (accountIDOr g) vs = vs"
  by (induction vs) (simp_all add: accountIDOr_def)

lemma concat_taxRateIDsOr_miss:
  "list_all (\<lambda>v. map_of t v = None) vs \<Longrightarrow> concat (map (taxRateIDsOr t) vs) = vs"
  by (induction vs) (simp_all add: taxRateIDsOr_def)

lemma concat_cardIDsOfBank_miss:
  "list_all (\<lambda>v. cardIDsOfBank c v = []) vs \<Longrightarrow> concat (map (cardIDsOfBank c) vs) = []"
  by (induction vs) simp_all

lemma findID_twice:
  assumes "noDisplayValue g c t k right"
  shows "\<exists>found. findIDFromDisplayValue g k right c t = Inr found \<and>
                 findIDFromDisplayValue g k found c t = Inr found \<and>
                 (\<forall>n. found \<noteq> RNode n \<or> right = RNode n)"
proof -
  consider (person) "k = FROM \<or> k = TO"
    | (tax) "\<not> (k = FROM \<or> k = TO)" "k = TAX_RATE"
    | (card) "\<not> (k = FROM \<or> k = TO)" "k \<noteq> TAX_RATE" "k = CARD_ID"
    | (other) "\<not> (k = FROM \<or> k = TO)" "k \<noteq> TAX_RATE" "k \<noteq> CARD_ID"
    by blast
  then show ?thesis
  proof cases
    case person
    then have n: "noDisplayValue g c t k right =
        (case right of RValue v \<Rightarrow> g v = None | RList vs \<Rightarrow> list_all (\<lambda>v. g v = None) vs
         | RNode _ \<Rightarrow> False)"
      and f: "\<And>r. findIDFromDisplayValue g k r c t =
        (case r of RValue email \<Rightarrow> Inr (RValue (accountIDOr g email))
         | RList emails \<Rightarrow> Inr (RList (map (accountIDOr g) emails))
         | RNode _ \<Rightarrow> Inl TypeError)"
      by (simp_all add: noDisplayValue_def findIDFromDisplayValue_def)
    from assms show ?thesis unfolding n f
      by (cases right) (simp_all add: accountIDOr_def map_accountIDOr_miss)
  next
    case tax
    then have n: "noDisplayValue g c t k right =
        (case right of RValue v \<Rightarrow> map_of t v = None
         | RList vs \<Rightarrow> list_all (\<lambda>v. map_of t v = None) vs
         | RNode _ \<Rightarrow> False)"
      and f: "\<And>r. findIDFromDisplayValue g k r c t =
        (case r of RValue name \<Rightarrow> Inr (RList (concat (map (taxRateIDsOr t) [name])))
         | RList names \<Rightarrow> Inr (RList (concat (map (taxRateIDsOr t) names)))
         | RNode _ \<Rightarrow> Inl IllTyped)"
      by (simp_all add: noDisplayValue_def findIDFromDisplayValue_def)
    from assms show ?thesis unfolding n f
      by (cases right) (simp_all add: taxRateIDsOr_def concat_taxRateIDsOr_miss)
  next
    case card
    then have n: "noDisplayValue g c t k right =
        (case right of RValue v \<Rightarrow> cardIDsOfBank c v = []
         | RList vs \<Rightarrow> list_all (\<lambda>v. cardIDsOfBank c v = []) vs
         | RNode _ \<Rightarrow> False)"
      and f: "\<And>r. findIDFromDisplayValue g k r c t =
        (case r of RValue b \<Rightarrow>
             (let ids = cardIDsOfBank c b in Inr (if length ids > 0 then RList ids else RValue b))
         | RList banks \<Rightarrow> Inr (RList (concat (map (cardIDsOfBank c) banks)))
         | RNode _ \<Rightarrow> Inl TypeError)"
      by (simp_all add: noDisplayValue_def findIDFromDisplayValue_def)
    from assms show ?thesis unfolding n f
      by (cases right) (simp_all add: concat_cardIDsOfBank_miss)
  next
    case other
    then have "\<And>r. findIDFromDisplayValue g k r c t = Inr r"
      by (simp add: findIDFromDisplayValue_def)
    then show ?thesis by simp
  qed
qed

lemma findID_node:
  assumes "noDisplayValue g c t k (RNode n)"
  shows "findIDFromDisplayValue g k (RNode m) c t = Inr (RNode m)"
proof -
  from assms have "\<not> (k = FROM \<or> k = TO)" "k \<noteq> TAX_RATE" "k \<noteq> CARD_ID"
    by (auto simp: noDisplayValue_def split: if_splits)
  then show ?thesis by (simp add: findIDFromDisplayValue_def)
qed

lemma standardizeNode_twice:
  "displayFreeNode g c t node \<Longrightarrow>
   \<exists>node1. standardizeNode g c t node = Inr node1 \<and> standardizeNode g c t node1 = Inr node1"
proof (induction node)
  case (ASTNode nodeOperator left right)
  show ?case
  proof (cases nodeOperator)
    case None
    then show ?thesis by simp
  next
    case (Some op)
    have left1: "\<exists>l1. standardizeNode g c t l = Inr l1 \<and> standardizeNode g c t l1 = Inr l1"
      if "left = LNode l" for l
      using that ASTNode.IH(1) [of l] ASTNode.prems Some by simp
    have right1: "\<exists>r1. standardizeNode g c t r = Inr r1 \<and> standardizeNode g c t r1 = Inr r1"
      if "right = RNode r" for r
      using that ASTNode.IH(2) [of r] ASTNode.prems Some by simp
    show ?thesis
    proof (cases left)
      case (LNode l)
      from left1 [OF LNode] obtain l1 where l1:
        "standardizeNode g c t l = Inr l1" "standardizeNode g c t l1 = Inr l1" by blast
      show ?thesis
      proof (cases right)
        case (RNode r)
        from right1 [OF RNode] obtain r1 where
          "standardizeNode g c t r = Inr r1" "standardizeNode g c t r1 = Inr r1" by blast
        with l1 Some LNode RNode show ?thesis by simp
      next
        case (RValue v)
        with l1 Some LNode show ?thesis by simp
      next
        case (RList vs)
        with l1 Some LNode show ?thesis by simp
      qed
    next
      case (LKey k)
      from ASTNode.prems Some LKey have nd: "noDisplayValue g c t k right" by simp
      show ?thesis
      proof (cases right)
        case (RNode r)
        from right1 [OF RNode] obtain r1 where
          "standardizeNode g c t r = Inr r1" "standardizeNode g c t r1 = Inr r1" by blast
        with Some LKey RNode findID_node [of g c t k r r1] nd show ?thesis by simp
      next
        case (RValue v)
        from findID_twice [OF nd] obtain found where f:
          "findIDFromDisplayValue g k right c t = Inr found"
          "findIDFromDisplayValue g k found c t = Inr found"
          "\<forall>n. found \<noteq> RNode n \<or> right = RNode n" by blast
        with RValue have "\<forall>n. found \<noteq> RNode n" by simp
        with f Some LKey RValue show ?thesis by (cases found) simp_all
      next
        case (RList vs)
        from findID_twice [OF nd] obtain found where f:
          "findIDFromDisplayValue g k right c t = Inr found"
          "findIDFromDisplayValue g k found c t = Inr found"
          "\<forall>n. found \<noteq> RNode n \<or> right = RNode n" by blast
        with RList have "\<forall>n. found \<noteq> RNode n" by simp
        with f Some LKey RList show ?thesis by (cases found) simp_all
      qed
    qed
  qed
qed

lemma getFilters_filters_only: "filters q = filters q' \<Longrightarrow> getFilters q = getFilters q'"
  by (simp add: getFilters_def)

text \<open>
  C7, with the hypothesis the code needs. When no right-hand value of the tree is a display
  value of the directories (no value under from or to is a known login, none under the tax
  rate is a tax-rate name, none under the card is the bank of a listed card, and under
  these keys the right side is a string or a list of strings), \<open>standardizeQueryJSON\<close>
  returns a query, and standardising that query again returns it unchanged.
\<close>

theorem standardizeQueryJSON_idempotent:
  assumes "displayFreeQuery g c t q"
  shows "\<exists>q1. standardizeQueryJSON g q c t = Inr q1 \<and> standardizeQueryJSON g q1 c t = Inr q1"
proof (cases "filters q")
  case None
  then show ?thesis
    by (simp add: standardizeQueryJSON_def getFilters_def)
next
  case (Some node)
  with assms have "displayFreeNode g c t node" by (simp add: displayFreeQuery_def)
  from standardizeNode_twice [OF this] obtain node1 where n:
    "standardizeNode g c t node = Inr node1" "standardizeNode g c t node1 = Inr node1" by blast
  let ?q1 = "q\<lparr>filters := Some node1, flatFilters := getFilters (q\<lparr>filters := Some node1\<rparr>)\<rparr>"
  have a: "standardizeQueryJSON g q c t = Inr ?q1"
    using Some n(1) by (simp add: standardizeQueryJSON_def Let_def)
  have "getFilters (?q1\<lparr>filters := Some node1\<rparr>) = getFilters (q\<lparr>filters := Some node1\<rparr>)"
    by (rule getFilters_filters_only) simp
  then have b: "standardizeQueryJSON g ?q1 c t = Inr ?q1"
    using n(2) by (simp add: standardizeQueryJSON_def Let_def)
  from a b show ?thesis by blast
qed

lemma standardize_id1_plain:
  "standardizeQueryJSON noPersonalDetails (taxRateQuery (RValue ''id1'')) [] plainTaxRates =
     Inr (standardTaxRateQuery ''id1'')"
  by code_simp

theorem standardizeQueryJSON_witness:
  "standardizeQueryJSON noPersonalDetails (standardTaxRateQuery ''id1'') [] plainTaxRates =
     Inr (standardTaxRateQuery ''id1'')"
proof -
  have "displayFreeQuery noPersonalDetails [] plainTaxRates (taxRateQuery (RValue ''id1''))"
    by (simp add: displayFreeQuery_def taxRateQuery_def noDisplayValue_def plainTaxRates_def
        TAX_RATE_def FROM_def TO_def)
  from standardizeQueryJSON_idempotent [OF this] standardize_id1_plain
  show ?thesis by auto
qed

text \<open>
  The claim as stated fails where an identifier is a display value as well. With the tax
  rates \<open>VAT\<close>, \<open>id1\<close> and \<open>id2\<close> above, \<open>id1\<close> is a tax-rate identifier of the directory, the
  standardised query holds \<open>id2\<close>, and standardising it again gives a query with \<open>id3\<close>.
\<close>

theorem standardizeQueryJSON_counterexample:
  "''id1'' \<in> set (concat (map snd chainedTaxRates)) \<and>
   standardizeQueryJSON noPersonalDetails (taxRateQuery (RValue ''id1'')) [] chainedTaxRates =
     Inr (standardTaxRateQuery ''id2'') \<and>
   standardizeQueryJSON noPersonalDetails (standardTaxRateQuery ''id2'') [] chainedTaxRates =
     Inr (standardTaxRateQuery ''id3'') \<and>
   standardTaxRateQuery ''id2'' \<noteq> standardTaxRateQuery ''id3''"
proof -
  have "''id1'' \<in> set (concat (map snd chainedTaxRates))"
    by (simp add: chainedTaxRates_def)
  moreover have "standardizeQueryJSON noPersonalDetails (taxRateQuery (RValue ''id1'')) [] chainedTaxRates =
     Inr (standardTaxRateQuery ''id2'')"
    by code_simp
  moreover have "standardizeQueryJSON noPersonalDetails (standardTaxRateQuery ''id2'') [] chainedTaxRates =
     Inr (standardTaxRateQuery ''id3'')"
    by code_simp
  moreover have "standardTaxRateQuery ''id2'' \<noteq> standardTaxRateQuery ''id3''"
    by (simp add: standardTaxRateQuery_def defaultQuery_def)
  ultimately show ?thesis by simp
qed



subsection \<open>The range fragments in general\<close>

text \<open>
  The date fragment is \<open>date<before\<close>, then \<open>date>after\<close>, with a space between them when
  both bounds are there; the amount fragment is \<open>amount>greaterThan\<close>, then
  \<open>amount<lessThan\<close>; a bound that is absent or empty adds nothing, and without bounds the
  fragment is the empty string.
\<close>

lemma buildDateFilterQuery_cases:
  "buildDateFilterQuery filterValues =
     (let dateBefore = map_of filterValues FORM_DATE_BEFORE;
          dateAfter = map_of filterValues FORM_DATE_AFTER
      in if truthy dateBefore \<and> truthy dateAfter
         then DATE @ ''<'' @ renderOpt dateBefore @ '' '' @ DATE @ ''>'' @ renderOpt dateAfter
         else if truthy dateBefore then DATE @ ''<'' @ renderOpt dateBefore
         else if truthy dateAfter then DATE @ ''>'' @ renderOpt dateAfter
         else [])"
  by (simp add: buildDateFilterQuery_def Let_def)

lemma buildAmountFilterQuery_cases:
  "buildAmountFilterQuery filterValues =
     (let lessThan = map_of filterValues FORM_LESS_THAN;
          greaterThan = map_of filterValues FORM_GREATER_THAN
      in if truthy greaterThan \<and> truthy lessThan
         then AMOUNT @ ''>'' @ renderOpt greaterThan @ '' '' @ AMOUNT @ ''<'' @ renderOpt lessThan
         else if truthy greaterThan then AMOUNT @ ''>'' @ renderOpt greaterThan
         else if truthy lessThan then AMOUNT @ ''<'' @ renderOpt lessThan
         else [])"
  by (simp add: buildAmountFilterQuery_def Let_def)


end
